theory Spec2Isabelle
  imports Complex_Main "HOL-Library.Word"
begin

section \<open>Shooter firmware: a shallow embedding of shooter.cpp\<close>

text \<open>
  The firmware is built with \<open>USE_LINEAR_FEEDER\<close> defined (line 11 of shooter.cpp), so
  the first \<open>AutoController\<close> class and the first set of service callbacks are the ones
  that are compiled; those are the ones embedded below.

  Conventions of the embedding.
  \<^item> C++ \<open>int\<close> and \<open>long\<close> have the widths of the AVR boards the Arduino core and
    \<open>Servo.h\<close> are written for: \<open>int\<close> is 16 bits and \<open>long\<close> 32 bits, both two's
    complement. Their values are HOL integers, and every place where the source
    computes or stores one wraps it to its width (\<open>to_int\<close>, \<open>to_long\<close>); this is what
    the AVR arithmetic does on overflow, which C++ itself leaves undefined. Division
    is written out as the truncating division of C++ (\<open>cdiv\<close>). An argument of type
    \<open>int\<close> is a value between \<open>INT_MIN\<close> and \<open>INT_MAX\<close>.
  \<^item> \<open>unsigned long\<close> (the \<open>millis()\<close> clock and the phase timers) is a 32-bit word:
    subtraction wraps and \<open><\<close> is the unsigned comparison, as on the Arduino.
  \<^item> \<open>millis()\<close> is an input: every operation that reads the clock takes the value
    read as its argument \<open>now\<close>.
  \<^item> The global objects \<open>shooter\<close>, \<open>feeder\<close> and \<open>autoController\<close> and the output
    pins form one record \<open>world\<close> that every operation takes and returns.
  \<^item> Calls to \<open>nh.logdebug\<close> only emit a log line and are left out.
\<close>

subsection \<open>Arduino primitives\<close>

type_synonym ulong = "32 word"

text \<open>
  The value a 16-bit \<open>int\<close> and a 32-bit \<open>long\<close> hold after an operation whose
  mathematical result is \<open>x\<close>: two's-complement wrap-around.
\<close>

definition INT_MIN :: int where "INT_MIN = - 32768"
definition INT_MAX :: int where "INT_MAX = 32767"

definition to_int :: "int \<Rightarrow> int" where
  "to_int x = (x + 32768) mod 65536 - 32768"

definition to_long :: "int \<Rightarrow> int" where
  "to_long x = (x + 2147483648) mod 4294967296 - 2147483648"

text \<open>Integer division of C++: the quotient is truncated toward zero.\<close>

definition cdiv :: "int \<Rightarrow> int \<Rightarrow> int" where
  "cdiv a b = (if (a < 0) = (b < 0) then \<bar>a\<bar> div \<bar>b\<bar> else - (\<bar>a\<bar> div \<bar>b\<bar>))"

text \<open>
  \<open>map\<close> of the Arduino core (WMath.cpp), a library function outside this repository:
  \<^verbatim>\<open>long map(long x, long in_min, long in_max, long out_min, long out_max)
  { return (x - in_min) * (out_max - out_min) / (in_max - in_min) + out_min; }\<close>
  Every operation is on \<open>long\<close>. (The callers below pass constant ranges, so the
  divisor is never 0.)
\<close>

definition map_arduino :: "int \<Rightarrow> int \<Rightarrow> int \<Rightarrow> int \<Rightarrow> int \<Rightarrow> int" where
  "map_arduino x in_min in_max out_min out_max =
     to_long (to_long (cdiv (to_long (to_long (x - in_min) * to_long (out_max - out_min)))
                            (to_long (in_max - in_min)))
              + out_min)"

text \<open>
  The output pins. \<open>digital p\<close> is the level last written to pin \<open>p\<close> by
  \<open>digitalWrite\<close> (\<open>True\<close> is HIGH), \<open>analog p\<close> the value last passed to
  \<open>analogWrite\<close>, \<open>output_mode p\<close> whether \<open>pinMode(p, OUTPUT)\<close> was called.
\<close>

record pins =
  digital :: "int \<Rightarrow> bool"
  analog :: "int \<Rightarrow> int"
  output_mode :: "int \<Rightarrow> bool"

definition LOW :: bool where "LOW = False"
definition HIGH :: bool where "HIGH = True"

definition digitalWrite :: "int \<Rightarrow> bool \<Rightarrow> pins \<Rightarrow> pins" where
  "digitalWrite p v h = h\<lparr>digital := (digital h)(p := v)\<rparr>"

definition analogWrite :: "int \<Rightarrow> int \<Rightarrow> pins \<Rightarrow> pins" where
  "analogWrite p v h = h\<lparr>analog := (analog h)(p := v)\<rparr>"

definition pinMode_OUTPUT :: "int \<Rightarrow> pins \<Rightarrow> pins" where
  "pinMode_OUTPUT p h = h\<lparr>output_mode := (output_mode h)(p := True)\<rparr>"

text \<open>
  The \<open>Servo\<close> object owned by the Victor: the pin it is attached to and the pulse
  width last passed to \<open>writeMicroseconds\<close> (\<open>None\<close> before the first call).
\<close>

record Servo =
  attached :: "int option"
  pulse :: "int option"

definition Servo_new :: Servo where
  "Servo_new = \<lparr>attached = None, pulse = None\<rparr>"

definition attach :: "int \<Rightarrow> Servo \<Rightarrow> Servo" where
  "attach p c = c\<lparr>attached := Some p\<rparr>"

definition writeMicroseconds :: "int \<Rightarrow> Servo \<Rightarrow> Servo" where
  "writeMicroseconds us c = c\<lparr>pulse := Some us\<rparr>"

definition SHOOTER_PIN :: int where "SHOOTER_PIN = 3"
definition FEEDER_A_PIN :: int where "FEEDER_A_PIN = 8"
definition FEEDER_B_PIN :: int where "FEEDER_B_PIN = 9"
definition FEEDER_PWM_PIN :: int where "FEEDER_PWM_PIN = 5"

subsection \<open>SpeedController\<close>

text \<open>
  The base class holds the \<open>reversed\<close> flag; \<open>_set\<close> and \<open>_get\<close> are virtual, so
  \<open>set\<close> and \<open>get\<close> take the overriding member as an argument. The state \<open>'s\<close> that
  \<open>_set\<close> changes is the object itself for the Victor and the object together with
  the pins for the Pololu.
\<close>

record SpeedController =
  reversed :: bool

definition SpeedController_set :: "bool \<Rightarrow> (int \<Rightarrow> 's \<Rightarrow> 's) \<Rightarrow> int \<Rightarrow> 's \<Rightarrow> 's" where
  "SpeedController_set r set_impl s = (if r then set_impl (to_int (- s)) else set_impl s)"

definition SpeedController_get :: "bool \<Rightarrow> ('s \<Rightarrow> int) \<Rightarrow> 's \<Rightarrow> int" where
  "SpeedController_get r get_impl x = (if r then to_int (- get_impl x) else get_impl x)"

definition setReversed :: "bool \<Rightarrow> 'a SpeedController_scheme \<Rightarrow> 'a SpeedController_scheme" where
  "setReversed r c = c\<lparr>reversed := r\<rparr>"

subsection \<open>Victor: the ramped shooter controller\<close>

record Victor = SpeedController +
  controller :: Servo
  goal :: int
  cur :: int
  pin :: int

definition Victor__set :: "int \<Rightarrow> Victor \<Rightarrow> Victor" where
  "Victor__set s v = v\<lparr>goal := to_int (map_arduino s (-100) 100 1000 2000)\<rparr>"

definition Victor__get :: "Victor \<Rightarrow> int" where
  "Victor__get v = to_int (map_arduino (cur v) 1000 2000 (-100) 100)"

definition Victor_new :: "int \<Rightarrow> Victor" where
  "Victor_new p = \<lparr>reversed = False, controller = Servo_new, goal = 1500, cur = 1500, pin = p\<rparr>"

definition Victor_init :: "Victor \<Rightarrow> Victor" where
  "Victor_init v =
     (let v1 = v\<lparr>controller := attach (pin v) (controller v)\<rparr>;
          v2 = v1\<lparr>goal := 1500\<rparr>;
          v3 = v2\<lparr>cur := goal v2\<rparr>
      in v3\<lparr>controller := writeMicroseconds (cur v3) (controller v3)\<rparr>)"

definition Victor_run :: "Victor \<Rightarrow> Victor" where
  "Victor_run v =
     (if cur v \<noteq> goal v then
        (let v1 = (if goal v = 1500 then v\<lparr>cur := 1500\<rparr>
                   else if goal v < 1500 then v\<lparr>cur := to_int (cur v - 100)\<rparr>
                   else if goal v > 1500 then v\<lparr>cur := to_int (cur v + 100)\<rparr>
                   else v)
         in v1\<lparr>controller := writeMicroseconds (cur v1) (controller v1)\<rparr>)
      else v)"

definition Victor_set :: "int \<Rightarrow> Victor \<Rightarrow> Victor" where
  "Victor_set s v = SpeedController_set (reversed v) Victor__set s v"

definition Victor_get :: "Victor \<Rightarrow> int" where
  "Victor_get v = SpeedController_get (reversed v) Victor__get v"

definition Victor_on :: "Victor \<Rightarrow> Victor" where
  "Victor_on = Victor_set 100"

definition Victor_off :: "Victor \<Rightarrow> Victor" where
  "Victor_off = Victor_set 0"

definition Victor_reverse :: "Victor \<Rightarrow> Victor" where
  "Victor_reverse = Victor_set (-100)"

text \<open>\<open>n\<close> consecutive calls of \<open>run()\<close> with no other call in between.\<close>

fun Victor_run_n :: "nat \<Rightarrow> Victor \<Rightarrow> Victor" where
  "Victor_run_n 0 v = v"
| "Victor_run_n (Suc n) v = Victor_run_n n (Victor_run v)"

subsection \<open>Pololu: the directional feeder controller\<close>

record Pololu = SpeedController +
  inA_pin :: int
  inB_pin :: int
  pwm_pin :: int
  speed :: int

definition Pololu__set :: "int \<Rightarrow> Pololu \<times> pins \<Rightarrow> Pololu \<times> pins" where
  "Pololu__set s ph =
     (let p = (fst ph)\<lparr>speed := s\<rparr>; h = snd ph in
      if s = 0 then
        (p, analogWrite (pwm_pin p) 0
              (digitalWrite (inB_pin p) LOW (digitalWrite (inA_pin p) LOW h)))
      else if s < 0 then
        (p, analogWrite (pwm_pin p) (to_int (map_arduino s 0 (-100) 0 255))
              (digitalWrite (inB_pin p) LOW (digitalWrite (inA_pin p) HIGH h)))
      else if s > 0 then
        (p, analogWrite (pwm_pin p) (to_int (map_arduino s 0 100 0 255))
              (digitalWrite (inB_pin p) HIGH (digitalWrite (inA_pin p) LOW h)))
      else (p, h))"

definition Pololu__get :: "Pololu \<times> pins \<Rightarrow> int" where
  "Pololu__get ph = speed (fst ph)"

definition Pololu_new :: "int \<Rightarrow> int \<Rightarrow> int \<Rightarrow> Pololu" where
  "Pololu_new a b pwm = \<lparr>reversed = False, inA_pin = a, inB_pin = b, pwm_pin = pwm, speed = 0\<rparr>"

definition Pololu_init :: "Pololu \<times> pins \<Rightarrow> Pololu \<times> pins" where
  "Pololu_init ph =
     (fst ph, pinMode_OUTPUT (pwm_pin (fst ph))
                (pinMode_OUTPUT (inB_pin (fst ph)) (pinMode_OUTPUT (inA_pin (fst ph)) (snd ph))))"

definition Pololu_set :: "int \<Rightarrow> Pololu \<times> pins \<Rightarrow> Pololu \<times> pins" where
  "Pololu_set s ph = SpeedController_set (reversed (fst ph)) Pololu__set s ph"

definition Pololu_get :: "Pololu \<times> pins \<Rightarrow> int" where
  "Pololu_get ph = SpeedController_get (reversed (fst ph)) Pololu__get ph"

definition Pololu_on :: "Pololu \<times> pins \<Rightarrow> Pololu \<times> pins" where
  "Pololu_on = Pololu_set 100"

definition Pololu_off :: "Pololu \<times> pins \<Rightarrow> Pololu \<times> pins" where
  "Pololu_off = Pololu_set 0"

definition Pololu_reverse :: "Pololu \<times> pins \<Rightarrow> Pololu \<times> pins" where
  "Pololu_reverse = Pololu_set (-100)"

subsection \<open>The global objects\<close>

record AutoController =
  state :: int
  start_load_time :: ulong
  start_fire_time :: ulong
  loaded :: bool

record world =
  shooter :: Victor
  feeder :: Pololu
  autoController :: AutoController
  hw :: pins

text \<open>Calls on the global objects \<open>shooter\<close> and \<open>feeder\<close>.\<close>

definition shooter_set :: "int \<Rightarrow> world \<Rightarrow> world" where
  "shooter_set s w = w\<lparr>shooter := Victor_set s (shooter w)\<rparr>"

definition shooter_on :: "world \<Rightarrow> world" where
  "shooter_on w = w\<lparr>shooter := Victor_on (shooter w)\<rparr>"

definition shooter_off :: "world \<Rightarrow> world" where
  "shooter_off w = w\<lparr>shooter := Victor_off (shooter w)\<rparr>"

definition shooter_run :: "world \<Rightarrow> world" where
  "shooter_run w = w\<lparr>shooter := Victor_run (shooter w)\<rparr>"

definition with_feeder :: "(Pololu \<times> pins \<Rightarrow> Pololu \<times> pins) \<Rightarrow> world \<Rightarrow> world" where
  "with_feeder f w = (let ph = f (feeder w, hw w) in w\<lparr>feeder := fst ph, hw := snd ph\<rparr>)"

definition feeder_set :: "int \<Rightarrow> world \<Rightarrow> world" where
  "feeder_set s = with_feeder (Pololu_set s)"

definition feeder_on :: "world \<Rightarrow> world" where
  "feeder_on = with_feeder Pololu_on"

definition feeder_off :: "world \<Rightarrow> world" where
  "feeder_off = with_feeder Pololu_off"

definition feeder_reverse :: "world \<Rightarrow> world" where
  "feeder_reverse = with_feeder Pololu_reverse"

subsection \<open>AutoController (the \<open>USE_LINEAR_FEEDER\<close> variant)\<close>

definition SPIN_UP_TIME :: ulong where "SPIN_UP_TIME = 1000"
definition RETRACT_TIME :: ulong where "RETRACT_TIME = 1000"
definition LOAD_TIME :: ulong where "LOAD_TIME = 650"
definition QUICKFIRE_TIME :: ulong where "QUICKFIRE_TIME = 300"

definition reset :: "AutoController \<Rightarrow> AutoController" where
  "reset a = a\<lparr>state := 0, start_load_time := 0, start_fire_time := 0, loaded := False\<rparr>"

text \<open>The constructor only calls \<open>reset()\<close>, which assigns every member.\<close>

definition AutoController_new :: AutoController where
  "AutoController_new = \<lparr>state = 0, start_load_time = 0, start_fire_time = 0, loaded = False\<rparr>"

definition runLoad :: "ulong \<Rightarrow> world \<Rightarrow> world" where
  "runLoad now w =
     (let cur_time = now - start_load_time (autoController w) in
      if cur_time < RETRACT_TIME then feeder_reverse w
      else if cur_time < RETRACT_TIME + LOAD_TIME then feeder_on w
      else
        (let w1 = shooter_on (feeder_off w) in
         w1\<lparr>autoController :=
               (autoController w1)\<lparr>state := 0, loaded := True, start_load_time := 0\<rparr>\<rparr>))"

definition runFire :: "ulong \<Rightarrow> world \<Rightarrow> world" where
  "runFire now w =
     (let cur_time = now - start_fire_time (autoController w) in
      if cur_time < QUICKFIRE_TIME then feeder_on (shooter_on w)
      else
        (let w1 = w\<lparr>autoController := (autoController w)\<lparr>start_fire_time := 0\<rparr>\<rparr>;
             w2 = shooter_off (feeder_off w1) in
         w2\<lparr>autoController := (autoController w2)\<lparr>loaded := False, state := 0\<rparr>\<rparr>))"

definition load :: "ulong \<Rightarrow> world \<Rightarrow> world" where
  "load now w =
     w\<lparr>autoController :=
         (autoController w)\<lparr>start_load_time := now, loaded := False, state := 1\<rparr>\<rparr>"

definition fire :: "ulong \<Rightarrow> world \<Rightarrow> world" where
  "fire now w =
     w\<lparr>autoController := (autoController w)\<lparr>start_fire_time := now, state := 2\<rparr>\<rparr>"

definition cancel :: "world \<Rightarrow> world" where
  "cancel w =
     (let w1 = shooter_off (feeder_off w) in
      w1\<lparr>autoController := reset (autoController w1)\<rparr>)"

definition AutoController_run :: "ulong \<Rightarrow> world \<Rightarrow> world" where
  "AutoController_run now w =
     (if state (autoController w) = 0 then w
      else if state (autoController w) = 1 then runLoad now w
      else if state (autoController w) = 2 then runFire now w
      else w)"

text \<open>
  A sequence of calls on the sequencer, each with the clock value it reads
  (\<open>cancel()\<close> reads none), applied from left to right.
\<close>

datatype call = Load ulong | Fire ulong | Cancel | Tick ulong

fun do_call :: "world \<Rightarrow> call \<Rightarrow> world" where
  "do_call w (Load now) = load now w"
| "do_call w (Fire now) = fire now w"
| "do_call w Cancel = cancel w"
| "do_call w (Tick now) = AutoController_run now w"

definition do_calls :: "world \<Rightarrow> call list \<Rightarrow> world" where
  "do_calls w cs = foldl do_call w cs"

subsection \<open>Comms: the service callbacks (the \<open>USE_LINEAR_FEEDER\<close> variant)\<close>

text \<open>
  The message types are generated outside this repository. Of
  \<open>std_srvs::Trigger::Response\<close> the fields \<open>success\<close> and \<open>message\<close> are kept, of
  \<open>navigator_msgs::ShooterManual\<close> the request fields \<open>feeder\<close> and \<open>shooter\<close>
  (\<open>int8\<close>) and the response field \<open>success\<close>. A callback receives the response
  object by reference and returns it with the assignments it made; whatever the
  caller put into it beforehand is the argument \<open>res\<close>.
\<close>

record Response =
  success :: bool

record Trigger_Response = Response +
  message :: string

record ShooterManual_Request =
  req_feeder :: "8 word"
  req_shooter :: "8 word"

definition fireCallback :: "ulong \<Rightarrow> Trigger_Response \<Rightarrow> world \<Rightarrow> Trigger_Response \<times> world" where
  "fireCallback now res w = (res\<lparr>success := True\<rparr>, fire now w)"

definition loadCallback :: "ulong \<Rightarrow> Trigger_Response \<Rightarrow> world \<Rightarrow> Trigger_Response \<times> world" where
  "loadCallback now res w = (res\<lparr>success := True\<rparr>, load now w)"

definition cancelCallback :: "Trigger_Response \<Rightarrow> world \<Rightarrow> Trigger_Response \<times> world" where
  "cancelCallback res w = (res\<lparr>success := True\<rparr>, cancel w)"

definition manualCallback :: "ShooterManual_Request \<Rightarrow> Response \<Rightarrow> world \<Rightarrow> Response \<times> world" where
  "manualCallback req res w =
     (res, shooter_set (sint (req_shooter req)) (feeder_set (sint (req_feeder req)) (cancel w)))"

subsection \<open>Start-up\<close>

text \<open>
  The global objects as their constructors leave them (the constructor of \<open>Comms\<close>
  makes pin 13 an output), over pins in the state \<open>h\<close>, and the sketch's
  \<open>setup()\<close> (renamed, the name being an Isabelle command).
\<close>

definition globals :: "pins \<Rightarrow> world" where
  "globals h =
     \<lparr>shooter = Victor_new SHOOTER_PIN,
      feeder = Pololu_new FEEDER_A_PIN FEEDER_B_PIN FEEDER_PWM_PIN,
      autoController = AutoController_new,
      hw = pinMode_OUTPUT 13 h\<rparr>"

definition arduino_setup :: "world \<Rightarrow> world" where
  "arduino_setup w =
     (let w1 = w\<lparr>shooter := setReversed True (shooter w)\<rparr>;
          w2 = w1\<lparr>shooter := Victor_init (shooter w1)\<rparr>
      in with_feeder Pololu_init w2)"

text \<open>Pins of which nothing has been written yet.\<close>

definition pins0 :: pins where
  "pins0 = \<lparr>digital = (\<lambda>p. False), analog = (\<lambda>p. 0), output_mode = (\<lambda>p. False)\<rparr>"

definition world0 :: world where
  "world0 = arduino_setup (globals pins0)"

section \<open>Properties\<close>

subsection \<open>Unfolding rules and arithmetic of the scalings\<close>

lemmas prim_defs = to_int_def to_long_def cdiv_def map_arduino_def LOW_def HIGH_def digitalWrite_def analogWrite_def
  pinMode_OUTPUT_def Servo_new_def attach_def writeMicroseconds_def
  SHOOTER_PIN_def FEEDER_A_PIN_def FEEDER_B_PIN_def FEEDER_PWM_PIN_def
lemmas sc_defs = SpeedController_set_def SpeedController_get_def setReversed_def
lemmas victor_defs = Victor__set_def Victor__get_def Victor_new_def Victor_init_def Victor_run_def
  Victor_set_def Victor_get_def Victor_on_def Victor_off_def Victor_reverse_def
lemmas pololu_defs = Pololu__set_def Pololu__get_def Pololu_new_def Pololu_init_def
  Pololu_set_def Pololu_get_def Pololu_on_def Pololu_off_def Pololu_reverse_def
lemmas world_defs = shooter_set_def shooter_on_def shooter_off_def shooter_run_def with_feeder_def
  feeder_set_def feeder_on_def feeder_off_def feeder_reverse_def
lemmas auto_defs = SPIN_UP_TIME_def RETRACT_TIME_def LOAD_TIME_def QUICKFIRE_TIME_def reset_def
  AutoController_new_def runLoad_def runFire_def load_def fire_def cancel_def AutoController_run_def
lemmas start_defs = globals_def arduino_setup_def pins0_def world0_def

lemma to_int_id: "- 32768 \<le> x \<Longrightarrow> x \<le> 32767 \<Longrightarrow> to_int x = x"
  by (simp add: to_int_def)

lemma to_long_id: "- 2147483648 \<le> x \<Longrightarrow> x \<le> 2147483647 \<Longrightarrow> to_long x = x"
  by (simp add: to_long_def)

lemma to_int_values [simp]:
  "to_int 0 = 0" "to_int 100 = 100" "to_int (- 100) = - 100" "to_int 255 = 255"
  by (simp_all add: to_int_def)

lemma to_int_range: "- 32768 \<le> to_int x \<and> to_int x \<le> 32767"
proof -
  have "0 \<le> (x + 32768) mod 65536 \<and> (x + 32768) mod 65536 < 65536" by simp
  then show ?thesis unfolding to_int_def by linarith
qed

lemma map_percent_to_pulse:
  "- 1000 \<le> s \<Longrightarrow> s \<le> 1000 \<Longrightarrow> map_arduino s (-100) 100 1000 2000 = 1500 + 5 * s"
  unfolding map_arduino_def cdiv_def by (auto simp add: to_long_id)

lemma map_pulse_to_percent:
  "- 1000 \<le> s \<Longrightarrow> s \<le> 1000 \<Longrightarrow> map_arduino (1500 + 5 * s) 1000 2000 (-100) 100 = s"
  unfolding map_arduino_def cdiv_def by (auto simp add: to_long_id)

lemma map_forward_pwm:
  "0 < s \<Longrightarrow> s \<le> 1000 \<Longrightarrow> map_arduino s 0 100 0 255 = (s * 255) div 100"
  unfolding map_arduino_def cdiv_def by (auto simp add: to_long_id)

lemma map_reverse_pwm:
  "- 1000 \<le> s \<Longrightarrow> s < 0 \<Longrightarrow> map_arduino s 0 (-100) 0 255 = (\<bar>s\<bar> * 255) div 100"
  unfolding map_arduino_def cdiv_def by (auto simp add: to_long_id)

lemma Victor_set_goal:
  "- 1000 \<le> s \<Longrightarrow> s \<le> 1000 \<Longrightarrow>
   goal (Victor_set s v) = (if reversed v then 1500 - 5 * s else 1500 + 5 * s)"
  by (simp add: Victor_set_def SpeedController_set_def Victor__set_def map_percent_to_pulse
      to_int_id)

lemma Victor_set_others [simp]:
  "cur (Victor_set s v) = cur v" "reversed (Victor_set s v) = reversed v"
  "controller (Victor_set s v) = controller v" "pin (Victor_set s v) = pin v"
  by (simp_all add: Victor_set_def SpeedController_set_def Victor__set_def)

subsection \<open>The service callbacks\<close>

lemma trigger_callbacks_report_success:
  "success (fst (fireCallback now res w))"
  "success (fst (loadCallback now res w))"
  "success (fst (cancelCallback res w))"
  by (simp_all add: fireCallback_def loadCallback_def cancelCallback_def)

lemma manualCallback_response_untouched: "fst (manualCallback req res w) = res"
  by (simp add: manualCallback_def)

text \<open>
  Claim C1 says that all four endpoints set \<open>success\<close> to true on every request. The
  fire, load and cancel callbacks do (\<open>trigger_callbacks_report_success\<close>), but the
  compiled \<open>manualCallback\<close> never assigns \<open>res.success\<close>: the response leaves the
  callback as it entered it. For the request \<open>feeder = 40, shooter = -20\<close> and a
  response whose \<open>success\<close> is false on entry, \<open>success\<close> is still false on return.
\<close>

theorem C1_manual_reports_no_success:
  "success (fst (manualCallback \<lparr>req_feeder = 40, req_shooter = - 20\<rparr>
                   \<lparr>success = False\<rparr> world0)) = False"
  by (simp add: manualCallback_def)

subsection \<open>The Victor ramp\<close>

text \<open>
  Claim C9 (fast stop): when \<open>goal\<close> is the neutral value 1500, one call of \<open>run()\<close>
  leaves \<open>cur\<close> at 1500 whatever \<open>cur\<close> was, and writes 1500 to the servo if \<open>cur\<close>
  was different; in particular one call of \<open>run()\<close> after \<open>off()\<close> brings \<open>cur\<close> to
  1500 from any state.
\<close>

theorem C9_fast_stop:
  "(goal v = 1500 \<longrightarrow> cur (Victor_run v) = 1500 \<and> goal (Victor_run v) = 1500)
   \<and> (goal v = 1500 \<and> cur v \<noteq> 1500 \<longrightarrow> pulse (controller (Victor_run v)) = Some 1500)
   \<and> cur (Victor_run (Victor_off v)) = 1500"
  by (auto simp add: Victor_run_def Victor_off_def Victor_set_goal writeMicroseconds_def Let_def)

theorem C9_fast_stop_witness:
  "goal (Victor_off (Victor_run_n 5 (Victor_on (shooter world0)))) = 1500
   \<and> cur (Victor_off (Victor_run_n 5 (Victor_on (shooter world0)))) = 1000
   \<and> cur (Victor_run (Victor_off (Victor_run_n 5 (Victor_on (shooter world0))))) = 1500
   \<and> pulse (controller (Victor_run (Victor_off (Victor_run_n 5 (Victor_on (shooter world0))))))
       = Some 1500"
proof -
  have g: "goal (Victor_off (Victor_run_n 5 (Victor_on (shooter world0)))) = 1500" by code_simp
  have c: "cur (Victor_off (Victor_run_n 5 (Victor_on (shooter world0)))) = 1000" by code_simp
  from C9_fast_stop [of "Victor_off (Victor_run_n 5 (Victor_on (shooter world0)))"] g c
  show ?thesis by simp
qed

lemma Victor_run_goal [simp]: "goal (Victor_run v) = goal v"
  by (simp add: Victor_run_def Let_def)

lemma Victor_run_n_goal [simp]: "goal (Victor_run_n n v) = goal v"
  by (induction n arbitrary: v) simp_all

lemma Victor_run_reversed [simp]: "reversed (Victor_run v) = reversed v"
  by (simp add: Victor_run_def Let_def)

lemma Victor_run_at_goal: "cur v = goal v \<Longrightarrow> Victor_run v = v"
  by (simp add: Victor_run_def)

lemma Victor_run_up:
  "1500 < goal v \<Longrightarrow> cur v \<noteq> goal v \<Longrightarrow> - 32768 \<le> cur v \<Longrightarrow> cur v + 100 \<le> 32767
     \<Longrightarrow> cur (Victor_run v) = cur v + 100"
  by (simp add: Victor_run_def Let_def to_int_id)

lemma Victor_run_down:
  "goal v < 1500 \<Longrightarrow> cur v \<noteq> goal v \<Longrightarrow> - 32768 \<le> cur v - 100 \<Longrightarrow> cur v \<le> 32767
     \<Longrightarrow> cur (Victor_run v) = cur v - 100"
  by (simp add: Victor_run_def Let_def to_int_id)

lemma Victor_run_n_add: "Victor_run_n (m + n) v = Victor_run_n n (Victor_run_n m v)"
  by (induction m arbitrary: v) simp_all

lemma Victor_run_n_Suc: "Victor_run_n (Suc n) v = Victor_run (Victor_run_n n v)"
  using Victor_run_n_add [of n 1 v] by simp

text \<open>
  While the goal is not met and \<open>cur\<close> stays within the range of \<open>int\<close>, \<open>n\<close> calls
  of \<open>run()\<close> move \<open>cur\<close> by \<open>100 n\<close>, upwards for a goal above 1500 and downwards
  for a goal below.
\<close>

lemma Victor_run_n_up:
  "1500 < goal v \<Longrightarrow> \<forall>j<n. cur v + 100 * int j \<noteq> goal v \<Longrightarrow>
   - 32768 \<le> cur v \<Longrightarrow> cur v + 100 * int n \<le> 32767
     \<Longrightarrow> cur (Victor_run_n n v) = cur v + 100 * int n"
proof (induction n)
  case 0
  then show ?case by simp
next
  case (Suc n)
  have prev: "cur (Victor_run_n n v) = cur v + 100 * int n"
    using Suc by simp
  have "cur (Victor_run_n n v) \<noteq> goal (Victor_run_n n v)"
    using Suc.prems(2) prev by simp
  then have "cur (Victor_run (Victor_run_n n v)) = cur (Victor_run_n n v) + 100"
    using Suc.prems(1,3,4) prev by (intro Victor_run_up) simp_all
  then show ?case
    using prev by (simp add: Victor_run_n_Suc del: Victor_run_n.simps(2))
qed

lemma Victor_run_n_down:
  "goal v < 1500 \<Longrightarrow> \<forall>j<n. cur v - 100 * int j \<noteq> goal v \<Longrightarrow>
   - 32768 \<le> cur v - 100 * int n \<Longrightarrow> cur v \<le> 32767
     \<Longrightarrow> cur (Victor_run_n n v) = cur v - 100 * int n"
proof (induction n)
  case 0
  then show ?case by simp
next
  case (Suc n)
  have prev: "cur (Victor_run_n n v) = cur v - 100 * int n"
    using Suc by simp
  have "cur (Victor_run_n n v) \<noteq> goal (Victor_run_n n v)"
    using Suc.prems(2) prev by simp
  then have "cur (Victor_run (Victor_run_n n v)) = cur (Victor_run_n n v) - 100"
    using Suc.prems(1,3,4) prev by (intro Victor_run_down) simp_all
  then show ?case
    using prev by (simp add: Victor_run_n_Suc del: Victor_run_n.simps(2))
qed

text \<open>What the ramp does achieve: away from neutral, onto an aligned goal.\<close>

lemma ramp_up_reaches_goal:
  assumes "1500 < goal v" and "goal v = cur v + 100 * int k" and "j \<le> k"
    and "- 32768 \<le> cur v" and "goal v \<le> 32767"
  shows "cur (Victor_run_n j v) = cur v + 100 * int j" and "cur (Victor_run_n k v) = goal v"
proof -
  have ne: "\<forall>i<n. cur v + 100 * int i \<noteq> goal v" if "n \<le> k" for n
    using that assms(2) by auto
  have fit: "cur v + 100 * int n \<le> 32767" if "n \<le> k" for n
    using that assms(2,5) by auto
  show "cur (Victor_run_n j v) = cur v + 100 * int j"
    using assms(1,3,4) ne [of j] fit [of j] by (intro Victor_run_n_up) simp_all
  show "cur (Victor_run_n k v) = goal v"
    using assms(1,2,4) ne [of k] fit [of k] Victor_run_n_up [of v k] by simp
qed

lemma ramp_down_reaches_goal:
  assumes "goal v < 1500" and "goal v = cur v - 100 * int k" and "j \<le> k"
    and "- 32768 \<le> goal v" and "cur v \<le> 32767"
  shows "cur (Victor_run_n j v) = cur v - 100 * int j" and "cur (Victor_run_n k v) = goal v"
proof -
  have ne: "\<forall>i<n. cur v - 100 * int i \<noteq> goal v" if "n \<le> k" for n
    using that assms(2) by auto
  have fit: "- 32768 \<le> cur v - 100 * int n" if "n \<le> k" for n
    using that assms(2,4) by auto
  show "cur (Victor_run_n j v) = cur v - 100 * int j"
    using assms(1,3,5) ne [of j] fit [of j] by (intro Victor_run_n_down) simp_all
  show "cur (Victor_run_n k v) = goal v"
    using assms(1,2,5) ne [of k] fit [of k] Victor_run_n_down [of v k] by simp
qed

lemma runaway_up:
  "1500 < goal v \<Longrightarrow> goal v < cur v \<Longrightarrow> cur v + 100 * int n \<le> 32767
     \<Longrightarrow> cur (Victor_run_n n v) = cur v + 100 * int n"
  by (rule Victor_run_n_up) auto

lemma runaway_down:
  "goal v < 1500 \<Longrightarrow> cur v < goal v \<Longrightarrow> - 32768 \<le> cur v - 100 * int n
     \<Longrightarrow> cur (Victor_run_n n v) = cur v - 100 * int n"
  by (rule Victor_run_n_down) auto

text \<open>
  Claim C2 says that the ramp reaches every goal at a whole number of steps from \<open>cur\<close>
  in \<open>k = ceil(|goal - cur| / 100)\<close> calls of \<open>run()\<close> without passing it, and that a
  goal exactly one step away is met by the next call. \<open>run()\<close> picks the direction from
  the side of 1500 the goal lies on, not from the side of \<open>cur\<close> it lies on
  (\<open>ramp_up_reaches_goal\<close> and \<open>ramp_down_reaches_goal\<close> are the cases where the two
  agree). After \<open>set(-60)\<close> and three calls of \<open>run()\<close> on the reversed shooter,
  \<open>cur = 1800\<close>; \<open>set(-40)\<close> then puts the goal at 1700, one step below \<open>cur\<close>, and
  the next \<open>run()\<close> moves \<open>cur\<close> up to 1900, away from the goal. It keeps moving up by
  100 per call: after \<open>n\<close> calls \<open>cur\<close> is \<open>1800 + 100 n\<close>, for every \<open>n\<close> up to
  309, where \<open>cur = 32700\<close> is at the top of the range of \<open>int\<close> (the statement
  writes \<open>n \<le> 309\<close> as \<open>min n 309\<close>).
\<close>

theorem C2_ramp_moves_away_from_goal:
  "cur (Victor_set (- 40) (Victor_run_n 3 (Victor_set (- 60) (shooter world0)))) = 1800
   \<and> goal (Victor_set (- 40) (Victor_run_n 3 (Victor_set (- 60) (shooter world0)))) = 1700
   \<and> cur (Victor_run (Victor_set (- 40) (Victor_run_n 3 (Victor_set (- 60) (shooter world0))))) = 1900
   \<and> (\<forall>n. cur (Victor_run_n (min n 309)
                   (Victor_set (- 40) (Victor_run_n 3 (Victor_set (- 60) (shooter world0)))))
           = 1800 + 100 * int (min n 309))"
proof -
  have c: "cur (Victor_set (- 40) (Victor_run_n 3 (Victor_set (- 60) (shooter world0)))) = 1800"
    by code_simp
  have g: "goal (Victor_set (- 40) (Victor_run_n 3 (Victor_set (- 60) (shooter world0)))) = 1700"
    by code_simp
  have r: "cur (Victor_run (Victor_set (- 40) (Victor_run_n 3 (Victor_set (- 60) (shooter world0))))) = 1900"
    by code_simp
  have "cur (Victor_run_n (min n 309)
               (Victor_set (- 40) (Victor_run_n 3 (Victor_set (- 60) (shooter world0)))))
           = 1800 + 100 * int (min n 309)" for n
  proof -
    have "1800 + 100 * int (min n 309) \<le> 32767" by simp
    then show ?thesis
      using runaway_up [of "Victor_set (- 40) (Victor_run_n 3 (Victor_set (- 60) (shooter world0)))"
          "min n 309"] c g
      by simp
  qed
  with c g r show ?thesis by blast
qed

lemma unaligned_never_met:
  assumes "\<not> 20 dvd s"
  shows "1500 + 100 * int j \<noteq> 1500 + 5 * s" "1500 + 100 * int j \<noteq> 1500 - 5 * s"
        "1500 - 100 * int j \<noteq> 1500 + 5 * s" "1500 - 100 * int j \<noteq> 1500 - 5 * s"
proof -
  have "s \<noteq> 20 * int j" "s \<noteq> - (20 * int j)"
    using assms by (metis dvd_triv_left, metis dvd_minus_iff dvd_triv_left)
  then show "1500 + 100 * int j \<noteq> 1500 + 5 * s" "1500 + 100 * int j \<noteq> 1500 - 5 * s"
        "1500 - 100 * int j \<noteq> 1500 + 5 * s" "1500 - 100 * int j \<noteq> 1500 - 5 * s"
    by presburger+
qed

lemma unaligned_closed_form:
  assumes c: "cur v = 1500" and lo: "- 100 \<le> s" and hi: "s \<le> 100" and s: "\<not> 20 dvd s"
    and n: "n \<le> 312"
  shows "cur (Victor_run_n n (Victor_set s v)) =
           (if 1500 < goal (Victor_set s v) then 1500 + 100 * int n else 1500 - 100 * int n)"
proof -
  have s0: "s \<noteq> 0" using s by auto
  have g: "goal (Victor_set s v) = 1500 + 5 * s \<or> goal (Victor_set s v) = 1500 - 5 * s"
    using lo hi by (simp add: Victor_set_goal)
  show ?thesis
  proof (cases "1500 < goal (Victor_set s v)")
    case True
    have "\<forall>j<n. cur (Victor_set s v) + 100 * int j \<noteq> goal (Victor_set s v)"
      using g c unaligned_never_met [OF s] by auto
    moreover have "- 32768 \<le> cur (Victor_set s v)" "cur (Victor_set s v) + 100 * int n \<le> 32767"
      using c n by simp_all
    ultimately have "cur (Victor_run_n n (Victor_set s v)) = cur (Victor_set s v) + 100 * int n"
      using True by (intro Victor_run_n_up)
    then show ?thesis using True c by simp
  next
    case False
    then have lt: "goal (Victor_set s v) < 1500" using g s0 by auto
    have "\<forall>j<n. cur (Victor_set s v) - 100 * int j \<noteq> goal (Victor_set s v)"
      using g c unaligned_never_met [OF s] by auto
    moreover have "- 32768 \<le> cur (Victor_set s v) - 100 * int n" "cur (Victor_set s v) \<le> 32767"
      using c n by simp_all
    ultimately have "cur (Victor_run_n n (Victor_set s v)) = cur (Victor_set s v) - 100 * int n"
      using lt by (intro Victor_run_n_down)
    then show ?thesis using False c by simp
  qed
qed

text \<open>
  Claim C10 says that from \<open>cur = goal = 1500\<close>, after \<open>set(s)\<close> with \<open>s\<close> in
  \<open>[-100, 100]\<close> and not a multiple of 20, no number of calls of \<open>run()\<close> makes
  \<open>cur\<close> equal to \<open>goal\<close>, and that \<open>cur\<close> grows without bound. As stated it fails:
  \<open>cur\<close> is a 16-bit \<open>int\<close>, so its magnitude never exceeds 32768; it wraps
  around, and the values it takes after wrapping can include the goal. On
  the shooter as \<open>setup()\<close> leaves it (reversed, \<open>cur = goal = 1500\<close>), \<open>set(4)\<close> puts
  the goal at 1480, and the 3277th call of \<open>run()\<close> leaves \<open>cur\<close> at 1480
  (\<open>1500 - 100 * 3277 = 1480 - 5 * 65536\<close>).
\<close>

theorem C10_cur_wraps_onto_goal:
  "cur (shooter world0) = 1500 \<and> goal (shooter world0) = 1500 \<and> \<not> 20 dvd (4::int)
   \<and> goal (Victor_set 4 (shooter world0)) = 1480
   \<and> cur (Victor_run_n 3277 (Victor_set 4 (shooter world0))) = 1480
   \<and> cur (Victor_run_n 3277 (Victor_set 4 (shooter world0)))
        = goal (Victor_run_n 3277 (Victor_set 4 (shooter world0)))"
proof -
  have c: "cur (shooter world0) = 1500" "goal (shooter world0) = 1500" by code_simp+
  have d: "\<not> 20 dvd (4::int)" by simp
  have g: "goal (Victor_set 4 (shooter world0)) = 1480" by code_simp
  have r: "cur (Victor_run_n 3277 (Victor_set 4 (shooter world0))) = 1480" by code_simp
  have "goal (Victor_run_n 3277 (Victor_set 4 (shooter world0))) = 1480"
    using g by simp
  with c d g r show ?thesis by simp
qed

text \<open>
  Claim C10 as amended: from \<open>cur = 1500\<close>, after \<open>set(s)\<close> with \<open>s\<close> in \<open>[-100, 100]\<close>
  and not a multiple of 20, the goal is \<open>1500 + 5 s\<close> (\<open>1500 - 5 s\<close> on a reversed
  controller), within \<open>[1000, 2000]\<close>, and none of the first 312 calls of \<open>run()\<close>
  makes \<open>cur\<close> equal to it: after \<open>n \<le> 312\<close> calls \<open>cur\<close> is \<open>1500 + 100 n\<close> (goal
  above 1500) or \<open>1500 - 100 n\<close> (goal below), so every one of these calls moves it
  by 100 in the same direction, and from the sixth call on it is outside
  \<open>[1000, 2000]\<close>. (After 312 calls \<open>1500 + 100 n\<close> no longer fits in an \<open>int\<close>.)
\<close>

theorem C10_unaligned_goal_runs_away:
  assumes c: "cur v = 1500" and lo: "- 100 \<le> s" and hi: "s \<le> 100" and s: "\<not> 20 dvd s"
  shows "goal (Victor_set s v) = (if reversed v then 1500 - 5 * s else 1500 + 5 * s)
    \<and> 1000 \<le> goal (Victor_set s v) \<and> goal (Victor_set s v) \<le> 2000
    \<and> (\<forall>n\<le>312. cur (Victor_run_n n (Victor_set s v)) \<noteq> goal (Victor_run_n n (Victor_set s v)))
    \<and> (\<forall>n\<le>312. cur (Victor_run_n n (Victor_set s v)) =
             (if 1500 < goal (Victor_set s v) then 1500 + 100 * int n else 1500 - 100 * int n))
    \<and> (\<forall>n. 6 \<le> n \<and> n \<le> 312 \<longrightarrow> cur (Victor_run_n n (Victor_set s v)) < 1000
                       \<or> 2000 < cur (Victor_run_n n (Victor_set s v)))"
proof -
  let ?w = "Victor_set s v"
  have g: "goal ?w = (if reversed v then 1500 - 5 * s else 1500 + 5 * s)"
    using lo hi by (simp add: Victor_set_goal)
  have cf: "cur (Victor_run_n n ?w) =
             (if 1500 < goal ?w then 1500 + 100 * int n else 1500 - 100 * int n)"
    if "n \<le> 312" for n
    using that by (rule unaligned_closed_form [OF c lo hi s])
  have bounds: "1000 \<le> goal ?w \<and> goal ?w \<le> 2000"
    using g lo hi by auto
  have never: "cur (Victor_run_n n ?w) \<noteq> goal (Victor_run_n n ?w)" if "n \<le> 312" for n
    using cf [OF that] g unfolding Victor_run_n_goal
    by (metis unaligned_never_met [OF s, of n])
  have leaves: "cur (Victor_run_n n ?w) < 1000 \<or> 2000 < cur (Victor_run_n n ?w)"
    if "6 \<le> n \<and> n \<le> 312" for n
    using cf [of n] that by (auto split: if_splits)
  from g bounds never cf leaves show ?thesis by blast
qed

theorem C10_unaligned_goal_runs_away_witness:
  "cur (shooter world0) = 1500 \<and> - 100 \<le> (30::int) \<and> (30::int) \<le> 100 \<and> \<not> 20 dvd (30::int)
   \<and> goal (Victor_set 30 (shooter world0)) = 1350
   \<and> cur (Victor_run_n 2 (Victor_set 30 (shooter world0))) = 1300
   \<and> cur (Victor_run_n 2 (Victor_set 30 (shooter world0)))
        \<noteq> goal (Victor_run_n 2 (Victor_set 30 (shooter world0)))
   \<and> cur (Victor_run_n 6 (Victor_set 30 (shooter world0))) = 900
   \<and> (cur (Victor_run_n 6 (Victor_set 30 (shooter world0))) < 1000
       \<or> 2000 < cur (Victor_run_n 6 (Victor_set 30 (shooter world0))))"
proof -
  have c: "cur (shooter world0) = 1500" by code_simp
  have g: "goal (Victor_set 30 (shooter world0)) = 1350" by code_simp
  have d: "\<not> 20 dvd (30::int)" by simp
  have r2: "cur (Victor_run_n 2 (Victor_set 30 (shooter world0))) = 1300" by code_simp
  have r6: "cur (Victor_run_n 6 (Victor_set 30 (shooter world0))) = 900" by code_simp
  have lo: "- 100 \<le> (30::int)" and hi: "(30::int) \<le> 100" by simp_all
  have n2: "(2::nat) \<le> 312" and n6: "(6::nat) \<le> 6 \<and> (6::nat) \<le> 312" by simp_all
  note th = C10_unaligned_goal_runs_away [OF c lo hi d]
  from th n2 have a: "cur (Victor_run_n 2 (Victor_set 30 (shooter world0)))
        \<noteq> goal (Victor_run_n 2 (Victor_set 30 (shooter world0)))"
    by blast
  from th n6 have b: "cur (Victor_run_n 6 (Victor_set 30 (shooter world0))) < 1000
       \<or> 2000 < cur (Victor_run_n 6 (Victor_set 30 (shooter world0)))"
    by blast
  from c lo hi d g r2 r6 a b show ?thesis by blast
qed

subsection \<open>get() against set(), and the Pololu outputs\<close>

lemma Victor_run_n_reversed [simp]: "reversed (Victor_run_n n v) = reversed v"
  by (induction n arbitrary: v) simp_all

lemma Victor_get_at_goal:
  assumes "cur v = (if reversed v then 1500 - 5 * s else 1500 + 5 * s)"
    and "- 128 \<le> s" and "s \<le> 127"
  shows "Victor_get v = s"
proof (cases "reversed v")
  case True
  then have "cur v = 1500 + 5 * (- s)" using assms by simp
  then have "map_arduino (cur v) 1000 2000 (-100) 100 = - s"
    using assms(2,3) by (simp only: map_pulse_to_percent)
  then have "Victor__get v = - s"
    using assms(2,3) by (simp add: Victor__get_def to_int_id)
  then show ?thesis
    using True assms(2,3) by (simp add: Victor_get_def SpeedController_get_def to_int_id)
next
  case False
  then have "cur v = 1500 + 5 * s" using assms by simp
  then have "map_arduino (cur v) 1000 2000 (-100) 100 = s"
    using assms(2,3) by (simp only: map_pulse_to_percent)
  then have "Victor__get v = s"
    using assms(2,3) by (simp add: Victor__get_def to_int_id)
  then show ?thesis using False by (simp add: Victor_get_def SpeedController_get_def)
qed

lemma Victor_get_after_set: "Victor_get (Victor_set s v) = Victor_get v"
  by (simp add: Victor_get_def Victor_set_def SpeedController_get_def SpeedController_set_def
      Victor__get_def Victor__set_def)

lemma negate_twice: "- 32768 \<le> s \<Longrightarrow> s \<le> 32767 \<Longrightarrow> to_int (- to_int (- s)) = s"
proof (cases "s = - 32768")
  case True
  then show ?thesis by (simp add: to_int_def)
next
  case False
  assume "- 32768 \<le> s" "s \<le> 32767"
  with False show ?thesis by (simp add: to_int_id)
qed

lemma Pololu__set_fields:
  "speed (fst (Pololu__set s ph)) = s" "reversed (fst (Pololu__set s ph)) = reversed (fst ph)"
  by (simp_all add: Pololu__set_def Let_def)

lemma Pololu_get_after_set:
  assumes "INT_MIN \<le> s" and "s \<le> INT_MAX"
  shows "Pololu_get (Pololu_set s ph) = s"
proof (cases "reversed (fst ph)")
  case True
  have "to_int (- to_int (- s)) = s"
    using assms by (intro negate_twice) (simp_all add: INT_MIN_def INT_MAX_def)
  then show ?thesis
    using True
    by (simp add: Pololu_get_def Pololu_set_def SpeedController_get_def SpeedController_set_def
        Pololu__get_def Pololu__set_fields)
next
  case False
  then show ?thesis
    by (simp add: Pololu_get_def Pololu_set_def SpeedController_get_def SpeedController_set_def
        Pololu__get_def Pololu__set_fields)
qed

text \<open>
  Claim C4 says that for both controllers \<open>get()\<close> returns the value last passed to
  \<open>set()\<close>. As stated it fails for the Victor: \<open>_get\<close> scales \<open>cur\<close>, the ramp
  position, and \<open>set\<close> only stores \<open>goal\<close>. On the shooter as \<open>setup()\<close> leaves it,
  \<open>get()\<close> right after \<open>set(50)\<close> returns 0.
\<close>

theorem C4_victor_get_is_not_last_set:
  "Victor_get (Victor_set 50 (shooter world0)) = 0
   \<and> Victor_get (Victor_set 50 (shooter world0)) \<noteq> 50"
proof -
  have "Victor_get (Victor_set 50 (shooter world0)) = 0" by code_simp
  then show ?thesis by simp
qed

text \<open>
  Claim C4 as amended: for the Pololu, \<open>get()\<close> after \<open>set(s)\<close> returns \<open>s\<close>, for
  every \<open>int\<close> value \<open>s\<close> and either value of \<open>reversed\<close>. For the Victor, \<open>get()\<close>
  reports the ramp position \<open>cur\<close> scaled back to a percentage and sign-corrected:
  \<open>set(s)\<close> does not change what \<open>get()\<close> returns, and for \<open>s\<close> in the range of a
  request field, \<open>-128 \<le> s \<le> 127\<close>, \<open>get()\<close> returns \<open>s\<close> once the calls of \<open>run()\<close>
  since \<open>set(s)\<close> have brought \<open>cur\<close> to the goal that \<open>set(s)\<close> stored.
\<close>

theorem C4_get_after_set:
  "(INT_MIN \<le> s \<and> s \<le> INT_MAX \<longrightarrow> Pololu_get (Pololu_set s ph) = s)
   \<and> Victor_get (Victor_set s v) = Victor_get v
   \<and> (- 128 \<le> s \<and> s \<le> 127
        \<and> cur (Victor_run_n k (Victor_set s v)) = goal (Victor_set s v)
        \<longrightarrow> Victor_get (Victor_run_n k (Victor_set s v)) = s)"
proof -
  have "Victor_get (Victor_run_n k (Victor_set s v)) = s"
    if "- 128 \<le> s" "s \<le> 127" "cur (Victor_run_n k (Victor_set s v)) = goal (Victor_set s v)"
    using that by (intro Victor_get_at_goal) (simp_all add: Victor_set_goal)
  then show ?thesis
    using Pololu_get_after_set Victor_get_after_set by blast
qed

theorem C4_get_after_set_witness:
  "INT_MIN \<le> - 100 \<and> - 100 \<le> INT_MAX \<and> - 128 \<le> (- 100::int) \<and> (- 100::int) \<le> 127
   \<and> Pololu_get (Pololu_set (- 100) (feeder world0, hw world0)) = - 100
   \<and> Victor_get (Victor_set (- 100) (shooter world0)) = 0
   \<and> cur (Victor_run_n 5 (Victor_set (- 100) (shooter world0)))
        = goal (Victor_set (- 100) (shooter world0))
   \<and> Victor_get (Victor_run_n 5 (Victor_set (- 100) (shooter world0))) = - 100"
proof -
  have r: "INT_MIN \<le> - 100" "- 100 \<le> INT_MAX" "- 128 \<le> (- 100::int)" "(- 100::int) \<le> 127"
    by (simp_all add: INT_MIN_def INT_MAX_def)
  have a: "cur (Victor_run_n 5 (Victor_set (- 100) (shooter world0)))
        = goal (Victor_set (- 100) (shooter world0))" by code_simp
  have b: "Victor_get (shooter world0) = 0" by code_simp
  note th = C4_get_after_set [of "- 100" "(feeder world0, hw world0)" "shooter world0" 5]
  from th r have p: "Pololu_get (Pololu_set (- 100) (feeder world0, hw world0)) = - 100"
    by blast
  from th b have q: "Victor_get (Victor_set (- 100) (shooter world0)) = 0"
    by simp
  from th r a have t: "Victor_get (Victor_run_n 5 (Victor_set (- 100) (shooter world0))) = - 100"
    by blast
  from r p q a t show ?thesis by blast
qed

text \<open>
  Claim C8 says that the PWM value is \<open>round(|x| / 100 * 255)\<close>. As stated it fails:
  \<open>map\<close> divides with truncation, so \<open>set(1)\<close> on the feeder writes 2 to the PWM pin,
  while \<open>round(1 / 100 * 255) = 3\<close>.
\<close>

theorem C8_pwm_is_truncated:
  "analog (snd (Pololu_set 1 (feeder world0, hw world0))) FEEDER_PWM_PIN = 2
   \<and> analog (snd (Pololu_set 1 (feeder world0, hw world0))) FEEDER_PWM_PIN
        \<noteq> round ((1::real) / 100 * 255)"
proof -
  have "analog (snd (Pololu_set 1 (feeder world0, hw world0))) FEEDER_PWM_PIN = 2"
    by (simp add: start_defs pololu_defs world_defs sc_defs prim_defs Let_def)
  moreover have "round ((1::real) / 100 * 255) = 3"
    by (simp add: round_def)
  ultimately show ?thesis by simp
qed

text \<open>
  Claim C8 as amended, for a Pololu that is not reversed (the feeder never is) and whose
  two direction pins differ, and for every \<open>x\<close> that a request field can carry,
  \<open>-128 \<le> x \<le> 127\<close>: \<open>set(x)\<close> stores \<open>x\<close>; for \<open>x = 0\<close> both direction lines are
  low and the PWM value is 0; for \<open>x > 0\<close> line A is low, line B is high and the PWM
  value is \<open>x * 255 / 100\<close> truncated to an integer; for \<open>x < 0\<close> line A is high, line
  B is low and the PWM value is \<open>|x| * 255 / 100\<close> truncated. So the pattern written is
  one of stopped, forward and reverse, fixed by the sign of \<open>x\<close> alone.
\<close>

theorem C8_directional_output:
  assumes "\<not> reversed p" and "inA_pin p \<noteq> inB_pin p" and "- 128 \<le> x" and "x \<le> 127"
  shows "speed (fst (Pololu_set x (p, h))) = x
   \<and> (x = 0 \<longrightarrow> digital (snd (Pololu_set x (p, h))) (inA_pin p) = LOW
              \<and> digital (snd (Pololu_set x (p, h))) (inB_pin p) = LOW
              \<and> analog (snd (Pololu_set x (p, h))) (pwm_pin p) = 0)
   \<and> (0 < x \<longrightarrow> digital (snd (Pololu_set x (p, h))) (inA_pin p) = LOW
              \<and> digital (snd (Pololu_set x (p, h))) (inB_pin p) = HIGH
              \<and> analog (snd (Pololu_set x (p, h))) (pwm_pin p) = (x * 255) div 100)
   \<and> (x < 0 \<longrightarrow> digital (snd (Pololu_set x (p, h))) (inA_pin p) = HIGH
              \<and> digital (snd (Pololu_set x (p, h))) (inB_pin p) = LOW
              \<and> analog (snd (Pololu_set x (p, h))) (pwm_pin p) = (\<bar>x\<bar> * 255) div 100)"
proof -
  have fwd: "to_int (map_arduino x 0 100 0 255) = (x * 255) div 100" if "0 < x"
    using that assms(4) by (simp add: map_forward_pwm to_int_id)
  have bwd: "to_int (map_arduino x 0 (-100) 0 255) = (\<bar>x\<bar> * 255) div 100" if "x < 0"
    using that assms(3) by (simp add: map_reverse_pwm to_int_id)
  show ?thesis
    using assms(1,2) fwd bwd
    by (simp add: Pololu_set_def SpeedController_set_def Pololu__set_def Let_def
        digitalWrite_def analogWrite_def LOW_def HIGH_def)
qed

theorem C8_directional_output_witness:
  "\<not> reversed (feeder world0) \<and> inA_pin (feeder world0) \<noteq> inB_pin (feeder world0)
   \<and> - 128 \<le> (- 37::int) \<and> (- 37::int) \<le> 127
   \<and> digital (snd (Pololu_set (- 37) (feeder world0, hw world0))) 8 = HIGH
   \<and> digital (snd (Pololu_set (- 37) (feeder world0, hw world0))) 9 = LOW
   \<and> analog (snd (Pololu_set (- 37) (feeder world0, hw world0))) 5 = 94"
proof -
  have r: "\<not> reversed (feeder world0)" by code_simp
  have d: "inA_pin (feeder world0) \<noteq> inB_pin (feeder world0)" by code_simp
  have b: "- 128 \<le> (- 37::int)" "(- 37::int) \<le> 127" by simp_all
  have pa: "inA_pin (feeder world0) = 8" by code_simp
  have pb: "inB_pin (feeder world0) = 9" by code_simp
  have pp: "pwm_pin (feeder world0) = 5" by code_simp
  from C8_directional_output [OF r d b, of "hw world0"] r d b pa pb pp
  show ?thesis by simp
qed

subsection \<open>The sequencer\<close>

lemma with_feeder_proj [simp]:
  "autoController (with_feeder f w) = autoController w"
  "shooter (with_feeder f w) = shooter w"
  "feeder (with_feeder f w) = fst (f (feeder w, hw w))"
  "hw (with_feeder f w) = snd (f (feeder w, hw w))"
  by (simp_all add: with_feeder_def Let_def)

lemma shooter_call_proj [simp]:
  "autoController (shooter_set s w) = autoController w"
  "autoController (shooter_on w) = autoController w"
  "autoController (shooter_off w) = autoController w"
  "feeder (shooter_set s w) = feeder w" "hw (shooter_set s w) = hw w"
  "feeder (shooter_on w) = feeder w" "hw (shooter_on w) = hw w"
  "feeder (shooter_off w) = feeder w" "hw (shooter_off w) = hw w"
  "shooter (shooter_set s w) = Victor_set s (shooter w)"
  "shooter (shooter_on w) = Victor_on (shooter w)"
  "shooter (shooter_off w) = Victor_off (shooter w)"
  by (simp_all add: shooter_set_def shooter_on_def shooter_off_def)

lemma feeder_call_proj [simp]:
  "autoController (feeder_set s w) = autoController w"
  "autoController (feeder_on w) = autoController w"
  "autoController (feeder_off w) = autoController w"
  "autoController (feeder_reverse w) = autoController w"
  "shooter (feeder_set s w) = shooter w"
  "shooter (feeder_on w) = shooter w"
  "shooter (feeder_off w) = shooter w"
  "shooter (feeder_reverse w) = shooter w"
  by (simp_all add: feeder_set_def feeder_on_def feeder_off_def feeder_reverse_def)

lemma Victor_on_off_goal:
  "goal (Victor_on v) = (if reversed v then 1000 else 2000)"
  "goal (Victor_off v) = 1500"
  by (simp_all add: Victor_on_def Victor_off_def Victor_set_goal)

lemma Pololu_off_outputs:
  "speed (fst (Pololu_off (p, h))) = 0"
  "digital (snd (Pololu_off (p, h))) (inA_pin p) = LOW"
  "digital (snd (Pololu_off (p, h))) (inB_pin p) = LOW"
  "analog (snd (Pololu_off (p, h))) (pwm_pin p) = 0"
  "inA_pin (fst (Pololu_off (p, h))) = inA_pin p"
  "inB_pin (fst (Pololu_off (p, h))) = inB_pin p"
  "pwm_pin (fst (Pololu_off (p, h))) = pwm_pin p"
  "reversed (fst (Pololu_off (p, h))) = reversed p"
  by (simp_all add: Pololu_off_def Pololu_set_def SpeedController_set_def Pololu__set_def
      Let_def digitalWrite_def analogWrite_def LOW_def)

lemma Pololu_set_speed:
  "speed (fst (Pololu_set s (p, h))) = (if reversed p then to_int (- s) else s)"
  by (simp add: Pololu_set_def SpeedController_set_def Pololu__set_fields)

lemma autoController_load:
  "autoController (load now w) =
     (autoController w)\<lparr>start_load_time := now, loaded := False, state := 1\<rparr>"
  by (simp add: load_def)

lemma autoController_fire:
  "autoController (fire now w) = (autoController w)\<lparr>start_fire_time := now, state := 2\<rparr>"
  by (simp add: fire_def)

lemma autoController_cancel: "autoController (cancel w) = AutoController_new"
  by (simp add: cancel_def reset_def AutoController_new_def Let_def)

lemma runLoad_retract:
  "now - start_load_time (autoController w) < RETRACT_TIME \<Longrightarrow> runLoad now w = feeder_reverse w"
  by (simp add: runLoad_def Let_def)

lemma runLoad_extend:
  "\<not> now - start_load_time (autoController w) < RETRACT_TIME \<Longrightarrow>
   now - start_load_time (autoController w) < RETRACT_TIME + LOAD_TIME \<Longrightarrow>
   runLoad now w = feeder_on w"
  by (simp add: runLoad_def Let_def)

lemma retract_before_total: "(x::ulong) < RETRACT_TIME \<Longrightarrow> x < RETRACT_TIME + LOAD_TIME"
proof -
  assume "x < RETRACT_TIME"
  moreover have "RETRACT_TIME < RETRACT_TIME + LOAD_TIME"
    by (simp add: RETRACT_TIME_def LOAD_TIME_def)
  ultimately show ?thesis by (rule less_trans)
qed

lemma runLoad_done:
  "\<not> now - start_load_time (autoController w) < RETRACT_TIME + LOAD_TIME \<Longrightarrow>
   runLoad now w = (shooter_on (feeder_off w))
     \<lparr>autoController := (autoController w)\<lparr>state := 0, loaded := True, start_load_time := 0\<rparr>\<rparr>"
  using retract_before_total [of "now - start_load_time (autoController w)"]
  by (auto simp add: runLoad_def Let_def)

lemma runFire_push:
  "now - start_fire_time (autoController w) < QUICKFIRE_TIME \<Longrightarrow>
   runFire now w = feeder_on (shooter_on w)"
  by (simp add: runFire_def Let_def)

lemma runFire_done:
  "\<not> now - start_fire_time (autoController w) < QUICKFIRE_TIME \<Longrightarrow>
   runFire now w = (shooter_off (feeder_off w))
     \<lparr>autoController := (autoController w)\<lparr>start_fire_time := 0, loaded := False, state := 0\<rparr>\<rparr>"
  by (simp add: runFire_def Let_def shooter_off_def feeder_off_def with_feeder_def)

lemma do_calls_snoc: "do_calls w (cs @ [c]) = do_call (do_calls w cs) c"
  by (simp add: do_calls_def)

lemma do_calls_Nil [simp]: "do_calls w [] = w"
  by (simp add: do_calls_def)

lemma do_calls_Cons: "do_calls w (c # cs) = do_calls (do_call w c) cs"
  by (simp add: do_calls_def)

lemma Pololu_on_outputs:
  assumes "\<not> reversed p" and "inA_pin p \<noteq> inB_pin p"
  shows "speed (fst (Pololu_on (p, h))) = 100"
    and "digital (snd (Pololu_on (p, h))) (inA_pin p) = LOW"
    and "digital (snd (Pololu_on (p, h))) (inB_pin p) = HIGH"
    and "analog (snd (Pololu_on (p, h))) (pwm_pin p) = 255"
  using assms
  by (simp_all add: Pololu_on_def Pololu_set_def SpeedController_set_def Pololu__set_def
      Let_def digitalWrite_def analogWrite_def LOW_def HIGH_def map_forward_pwm)

lemma Pololu_reverse_outputs:
  assumes "\<not> reversed p" and "inA_pin p \<noteq> inB_pin p"
  shows "speed (fst (Pololu_reverse (p, h))) = - 100"
    and "digital (snd (Pololu_reverse (p, h))) (inA_pin p) = HIGH"
    and "digital (snd (Pololu_reverse (p, h))) (inB_pin p) = LOW"
    and "analog (snd (Pololu_reverse (p, h))) (pwm_pin p) = 255"
  using assms
  by (simp_all add: Pololu_reverse_def Pololu_set_def SpeedController_set_def Pololu__set_def
      Let_def digitalWrite_def analogWrite_def LOW_def HIGH_def map_reverse_pwm)

lemma AutoController_run_cases:
  "state (autoController w) = 1 \<Longrightarrow> AutoController_run now w = runLoad now w"
  "state (autoController w) = 2 \<Longrightarrow> AutoController_run now w = runFire now w"
  "state (autoController w) \<noteq> 1 \<Longrightarrow> state (autoController w) \<noteq> 2 \<Longrightarrow> AutoController_run now w = w"
  by (simp_all add: AutoController_run_def)

text \<open>What one tick does to the sequencer's own members.\<close>

lemma autoController_tick:
  "autoController (AutoController_run now w) =
     (if state (autoController w) = 1
        \<and> \<not> now - start_load_time (autoController w) < RETRACT_TIME + LOAD_TIME
      then (autoController w)\<lparr>state := 0, loaded := True, start_load_time := 0\<rparr>
      else if state (autoController w) = 2
        \<and> \<not> now - start_fire_time (autoController w) < QUICKFIRE_TIME
      then (autoController w)\<lparr>start_fire_time := 0, loaded := False, state := 0\<rparr>
      else autoController w)"
proof -
  consider (load) "state (autoController w) = 1" | (fire) "state (autoController w) = 2"
    | (other) "state (autoController w) \<noteq> 1" "state (autoController w) \<noteq> 2"
    by blast
  then show ?thesis
  proof cases
    case load
    show ?thesis
    proof (cases "now - start_load_time (autoController w) < RETRACT_TIME + LOAD_TIME")
      case True
      then show ?thesis
        using load by (cases "now - start_load_time (autoController w) < RETRACT_TIME")
          (simp_all add: AutoController_run_cases runLoad_retract runLoad_extend)
    next
      case False
      then show ?thesis
        using load by (simp add: AutoController_run_cases runLoad_done)
    qed
  next
    case fire
    then show ?thesis
      by (cases "now - start_fire_time (autoController w) < QUICKFIRE_TIME")
        (simp_all add: AutoController_run_cases runFire_push runFire_done)
  next
    case other
    then show ?thesis by (simp add: AutoController_run_cases)
  qed
qed

lemma do_call_state_range:
  assumes "state (autoController w) \<in> {0, 1, 2}"
  shows "state (autoController (do_call w c)) \<in> {0, 1, 2}"
  using assms
  by (cases c) (auto simp add: autoController_load autoController_fire autoController_cancel
      AutoController_new_def autoController_tick)

lemma do_calls_state_range:
  "state (autoController w) \<in> {0, 1, 2} \<Longrightarrow> state (autoController (do_calls w cs)) \<in> {0, 1, 2}"
proof (induction cs arbitrary: w)
  case Nil
  then show ?case by simp
next
  case (Cons c cs)
  from Cons.prems have "state (autoController (do_call w c)) \<in> {0, 1, 2}"
    by (rule do_call_state_range)
  then show ?case
    by (simp only: do_calls_Cons Cons.IH)
qed

text \<open>
  Claim C5: \<open>cancel()\<close>, called in any state of the world, leaves the sequencer with
  \<open>state = 0\<close> (idle), both phase timers 0 and \<open>loaded\<close> false; it calls
  \<open>shooter.off()\<close>, which puts the shooter's goal at the neutral 1500 (the next
  \<open>run()\<close> of the shooter then brings \<open>cur\<close> to 1500), and \<open>feeder.off()\<close>, which
  stores speed 0 and writes both direction lines low and PWM 0. Moreover, from a
  sequencer whose state is one of 0, 1, 2 (the constructor gives 0), after every prefix
  of any sequence of calls the state is again exactly one of 0 (idle), 1 (loading),
  2 (firing), so loading and firing are never active together.
\<close>

theorem C5_cancel:
  "state (autoController (cancel w)) = 0
   \<and> start_load_time (autoController (cancel w)) = 0
   \<and> start_fire_time (autoController (cancel w)) = 0
   \<and> \<not> loaded (autoController (cancel w))
   \<and> shooter (cancel w) = Victor_off (shooter w)
   \<and> goal (shooter (cancel w)) = 1500
   \<and> cur (Victor_run (shooter (cancel w))) = 1500
   \<and> (feeder (cancel w), hw (cancel w)) = Pololu_off (feeder w, hw w)
   \<and> speed (feeder (cancel w)) = 0
   \<and> digital (hw (cancel w)) (inA_pin (feeder w)) = LOW
   \<and> digital (hw (cancel w)) (inB_pin (feeder w)) = LOW
   \<and> analog (hw (cancel w)) (pwm_pin (feeder w)) = 0
   \<and> (state (autoController w) \<in> {0, 1, 2} \<longrightarrow>
        (\<forall>n. state (autoController (do_calls w (take n cs))) \<in> {0, 1, 2}))"
proof -
  have seq: "state (autoController (cancel w)) = 0"
    "start_load_time (autoController (cancel w)) = 0"
    "start_fire_time (autoController (cancel w)) = 0"
    "\<not> loaded (autoController (cancel w))"
    by (simp_all add: autoController_cancel AutoController_new_def)
  have sh: "shooter (cancel w) = Victor_off (shooter w)"
    by (simp add: cancel_def Let_def feeder_off_def)
  then have g: "goal (shooter (cancel w)) = 1500"
    by (simp add: Victor_on_off_goal)
  then have c: "cur (Victor_run (shooter (cancel w))) = 1500"
    by (simp add: Victor_run_def Let_def)
  have fd: "(feeder (cancel w), hw (cancel w)) = Pololu_off (feeder w, hw w)"
    by (simp add: cancel_def Let_def feeder_off_def)
  then have fd1: "feeder (cancel w) = fst (Pololu_off (feeder w, hw w))"
    and fd2: "hw (cancel w) = snd (Pololu_off (feeder w, hw w))"
    by (metis fst_conv, metis snd_conv)
  have out: "speed (feeder (cancel w)) = 0"
    "digital (hw (cancel w)) (inA_pin (feeder w)) = LOW"
    "digital (hw (cancel w)) (inB_pin (feeder w)) = LOW"
    "analog (hw (cancel w)) (pwm_pin (feeder w)) = 0"
    by (simp_all only: fd1 fd2 Pololu_off_outputs)
  have range: "state (autoController (do_calls w (take n cs))) \<in> {0, 1, 2}"
    if "state (autoController w) \<in> {0, 1, 2}" for n
    using that by (rule do_calls_state_range)
  from seq sh g c fd out range show ?thesis by blast
qed

theorem C5_cancel_witness:
  "state (autoController world0) \<in> {0, 1, 2}
   \<and> state (autoController (do_calls world0 (take 2 [Load 0, Fire 5, Cancel]))) = 2
   \<and> state (autoController (do_calls world0 (take 2 [Load 0, Fire 5, Cancel]))) \<in> {0, 1, 2}
   \<and> state (autoController (cancel (do_calls world0 [Load 0, Fire 5]))) = 0
   \<and> goal (shooter (cancel (do_calls world0 [Load 0, Fire 5]))) = 1500
   \<and> analog (hw (cancel (do_calls world0 [Load 0, Fire 5]))) 5 = 0"
proof -
  have s0: "state (autoController world0) \<in> {0, 1, 2}" by code_simp
  have s2: "state (autoController (do_calls world0 (take 2 [Load 0, Fire 5, Cancel]))) = 2"
    by code_simp
  have p: "pwm_pin (feeder (do_calls world0 [Load 0, Fire 5])) = 5" by code_simp
  from C5_cancel [of "world0" "[Load 0, Fire 5, Cancel]"] s0
  have "\<forall>n. state (autoController (do_calls world0 (take n [Load 0, Fire 5, Cancel]))) \<in> {0, 1, 2}"
    by blast
  then have r: "state (autoController (do_calls world0 (take 2 [Load 0, Fire 5, Cancel]))) \<in> {0, 1, 2}"
    by blast
  note at_cancel = C5_cancel [of "do_calls world0 [Load 0, Fire 5]" "[]"]
  from at_cancel
  have "analog (hw (cancel (do_calls world0 [Load 0, Fire 5])))
          (pwm_pin (feeder (do_calls world0 [Load 0, Fire 5]))) = 0"
    by blast
  then have a: "analog (hw (cancel (do_calls world0 [Load 0, Fire 5]))) 5 = 0"
    by (simp only: p)
  from at_cancel
  have "state (autoController (cancel (do_calls world0 [Load 0, Fire 5]))) = 0
   \<and> goal (shooter (cancel (do_calls world0 [Load 0, Fire 5]))) = 1500"
    by blast
  with s0 s2 r a show ?thesis by blast
qed

lemma ticks_keep_firing:
  "state (autoController w) = 2 \<Longrightarrow>
   \<forall>u\<in>set ts. u - start_fire_time (autoController w) < QUICKFIRE_TIME \<Longrightarrow>
   autoController (do_calls w (map Tick ts)) = autoController w"
proof (induction ts arbitrary: w)
  case Nil
  then show ?case by simp
next
  case (Cons t ts)
  have step: "autoController (AutoController_run t w) = autoController w"
    using Cons.prems by (simp add: autoController_tick)
  then have "autoController (do_calls (AutoController_run t w) (map Tick ts))
               = autoController (AutoController_run t w)"
    using Cons.prems by (intro Cons.IH) simp_all
  then show ?case
    using step by (simp add: do_calls_Cons)
qed

lemma ticks_keep_loading:
  "state (autoController w) = 1 \<Longrightarrow>
   \<forall>u\<in>set ts. u - start_load_time (autoController w) < RETRACT_TIME + LOAD_TIME \<Longrightarrow>
   autoController (do_calls w (map Tick ts)) = autoController w"
proof (induction ts arbitrary: w)
  case Nil
  then show ?case by simp
next
  case (Cons t ts)
  have step: "autoController (AutoController_run t w) = autoController w"
    using Cons.prems by (simp add: autoController_tick)
  then have "autoController (do_calls (AutoController_run t w) (map Tick ts))
               = autoController (AutoController_run t w)"
    using Cons.prems by (intro Cons.IH) simp_all
  then show ?case
    using step by (simp add: do_calls_Cons)
qed

lemma feeder_on_outputs:
  "speed (feeder (feeder_on w)) = (if reversed (feeder w) then - 100 else 100)"
  "\<not> reversed (feeder w) \<Longrightarrow> inA_pin (feeder w) \<noteq> inB_pin (feeder w) \<Longrightarrow>
     digital (hw (feeder_on w)) (inA_pin (feeder w)) = LOW
     \<and> digital (hw (feeder_on w)) (inB_pin (feeder w)) = HIGH
     \<and> analog (hw (feeder_on w)) (pwm_pin (feeder w)) = 255"
  by (simp_all add: feeder_on_def Pololu_on_outputs) (simp add: Pololu_on_def Pololu_set_speed)

lemma feeder_reverse_outputs:
  "speed (feeder (feeder_reverse w)) = (if reversed (feeder w) then 100 else - 100)"
  "\<not> reversed (feeder w) \<Longrightarrow> inA_pin (feeder w) \<noteq> inB_pin (feeder w) \<Longrightarrow>
     digital (hw (feeder_reverse w)) (inA_pin (feeder w)) = HIGH
     \<and> digital (hw (feeder_reverse w)) (inB_pin (feeder w)) = LOW
     \<and> analog (hw (feeder_reverse w)) (pwm_pin (feeder w)) = 255"
  by (simp_all add: feeder_reverse_def Pololu_reverse_outputs)
     (simp add: Pololu_reverse_def Pololu_set_speed)

lemma feeder_off_outputs:
  "speed (feeder (feeder_off w)) = 0"
  "digital (hw (feeder_off w)) (inA_pin (feeder w)) = LOW"
  "digital (hw (feeder_off w)) (inB_pin (feeder w)) = LOW"
  "analog (hw (feeder_off w)) (pwm_pin (feeder w)) = 0"
  by (simp_all add: feeder_off_def Pololu_off_outputs)

text \<open>
  Claim C6: \<open>fire()\<close>, in any state of the world and whatever \<open>loaded\<close> is, sets
  \<open>state = 2\<close> (firing) and \<open>start_fire_time\<close> to the clock value, and changes
  nothing else. Ticks at which the elapsed time \<open>now - start_fire_time\<close> is below
  \<open>QUICKFIRE_TIME\<close> leave the sequencer's members as they are, and each of them calls
  \<open>shooter.on()\<close> and \<open>feeder.on()\<close>: the shooter's goal is full speed (1000 reversed,
  2000 otherwise), the feeder's speed is 100 (sign-flipped if reversed) and, for a feeder
  that is not reversed, line A is low, line B high and the PWM value 255. A tick in state
  2 with elapsed time at least \<open>QUICKFIRE_TIME\<close> turns feeder and shooter off (feeder
  speed 0, both lines low, PWM 0, shooter goal 1500), clears \<open>loaded\<close> and the timer and
  sets \<open>state = 0\<close>. Elapsed time is computed in wrapping 32-bit arithmetic.
\<close>

theorem C6_fire:
  "state (autoController (fire t0 w)) = 2
   \<and> start_fire_time (autoController (fire t0 w)) = t0
   \<and> loaded (autoController (fire t0 w)) = loaded (autoController w)
   \<and> shooter (fire t0 w) = shooter w \<and> feeder (fire t0 w) = feeder w \<and> hw (fire t0 w) = hw w
   \<and> ((\<forall>u\<in>set ts. u - t0 < QUICKFIRE_TIME) \<longrightarrow>
         autoController (do_calls (fire t0 w) (map Tick ts)) = autoController (fire t0 w))
   \<and> (state (autoController v) = 2 \<and> now - start_fire_time (autoController v) < QUICKFIRE_TIME \<longrightarrow>
         AutoController_run now v = feeder_on (shooter_on v)
         \<and> autoController (AutoController_run now v) = autoController v
         \<and> goal (shooter (AutoController_run now v)) = (if reversed (shooter v) then 1000 else 2000)
         \<and> speed (feeder (AutoController_run now v)) = (if reversed (feeder v) then - 100 else 100)
         \<and> (\<not> reversed (feeder v) \<and> inA_pin (feeder v) \<noteq> inB_pin (feeder v) \<longrightarrow>
               digital (hw (AutoController_run now v)) (inA_pin (feeder v)) = LOW
               \<and> digital (hw (AutoController_run now v)) (inB_pin (feeder v)) = HIGH
               \<and> analog (hw (AutoController_run now v)) (pwm_pin (feeder v)) = 255))
   \<and> (state (autoController v) = 2 \<and> QUICKFIRE_TIME \<le> now - start_fire_time (autoController v) \<longrightarrow>
         state (autoController (AutoController_run now v)) = 0
         \<and> \<not> loaded (autoController (AutoController_run now v))
         \<and> start_fire_time (autoController (AutoController_run now v)) = 0
         \<and> shooter (AutoController_run now v) = Victor_off (shooter v)
         \<and> goal (shooter (AutoController_run now v)) = 1500
         \<and> speed (feeder (AutoController_run now v)) = 0
         \<and> digital (hw (AutoController_run now v)) (inA_pin (feeder v)) = LOW
         \<and> digital (hw (AutoController_run now v)) (inB_pin (feeder v)) = LOW
         \<and> analog (hw (AutoController_run now v)) (pwm_pin (feeder v)) = 0)"
proof -
  have start: "state (autoController (fire t0 w)) = 2"
    "start_fire_time (autoController (fire t0 w)) = t0"
    "loaded (autoController (fire t0 w)) = loaded (autoController w)"
    "shooter (fire t0 w) = shooter w" "feeder (fire t0 w) = feeder w" "hw (fire t0 w) = hw w"
    by (simp_all add: fire_def)
  have keep: "autoController (do_calls (fire t0 w) (map Tick ts)) = autoController (fire t0 w)"
    if "\<forall>u\<in>set ts. u - t0 < QUICKFIRE_TIME"
    using that start by (intro ticks_keep_firing) simp_all
  have push: "AutoController_run now v = feeder_on (shooter_on v)"
    if "state (autoController v) = 2" "now - start_fire_time (autoController v) < QUICKFIRE_TIME"
    using that by (simp add: AutoController_run_cases runFire_push)
  have pushed:
    "AutoController_run now v = feeder_on (shooter_on v)
     \<and> autoController (AutoController_run now v) = autoController v
     \<and> goal (shooter (AutoController_run now v)) = (if reversed (shooter v) then 1000 else 2000)
     \<and> speed (feeder (AutoController_run now v)) = (if reversed (feeder v) then - 100 else 100)
     \<and> (\<not> reversed (feeder v) \<and> inA_pin (feeder v) \<noteq> inB_pin (feeder v) \<longrightarrow>
           digital (hw (AutoController_run now v)) (inA_pin (feeder v)) = LOW
           \<and> digital (hw (AutoController_run now v)) (inB_pin (feeder v)) = HIGH
           \<and> analog (hw (AutoController_run now v)) (pwm_pin (feeder v)) = 255)"
    if "state (autoController v) = 2" "now - start_fire_time (autoController v) < QUICKFIRE_TIME"
    using feeder_on_outputs [of "shooter_on v"]
    by (simp add: push [OF that] Victor_on_off_goal)
  have fin: "AutoController_run now v = (shooter_off (feeder_off v))
     \<lparr>autoController := (autoController v)\<lparr>start_fire_time := 0, loaded := False, state := 0\<rparr>\<rparr>"
    if "state (autoController v) = 2" "QUICKFIRE_TIME \<le> now - start_fire_time (autoController v)"
    using that by (simp add: AutoController_run_cases runFire_done not_less)
  have fin_out:
    "state (autoController (AutoController_run now v)) = 0
     \<and> \<not> loaded (autoController (AutoController_run now v))
     \<and> start_fire_time (autoController (AutoController_run now v)) = 0
     \<and> shooter (AutoController_run now v) = Victor_off (shooter v)
     \<and> goal (shooter (AutoController_run now v)) = 1500
     \<and> speed (feeder (AutoController_run now v)) = 0
     \<and> digital (hw (AutoController_run now v)) (inA_pin (feeder v)) = LOW
     \<and> digital (hw (AutoController_run now v)) (inB_pin (feeder v)) = LOW
     \<and> analog (hw (AutoController_run now v)) (pwm_pin (feeder v)) = 0"
    if "state (autoController v) = 2" "QUICKFIRE_TIME \<le> now - start_fire_time (autoController v)"
    using fin [OF that] by (simp add: Victor_on_off_goal feeder_off_outputs)
  show ?thesis
    using start keep pushed fin_out by blast
qed

theorem C6_fire_witness:
  "(100::ulong) - 0 < QUICKFIRE_TIME \<and> (200::ulong) - 0 < QUICKFIRE_TIME
   \<and> autoController (do_calls (fire 0 world0) (map Tick [100, 200])) = autoController (fire 0 world0)
   \<and> state (autoController (fire 0 world0)) = 2
   \<and> 150 - start_fire_time (autoController (fire 0 world0)) < QUICKFIRE_TIME
   \<and> goal (shooter (AutoController_run 150 (fire 0 world0))) = 1000
   \<and> speed (feeder (AutoController_run 150 (fire 0 world0))) = 100
   \<and> digital (hw (AutoController_run 150 (fire 0 world0))) 8 = LOW
   \<and> digital (hw (AutoController_run 150 (fire 0 world0))) 9 = HIGH
   \<and> analog (hw (AutoController_run 150 (fire 0 world0))) 5 = 255
   \<and> state (autoController (AutoController_run 150 (fire 0 world0))) = 2
   \<and> QUICKFIRE_TIME \<le> 350 - start_fire_time (autoController (AutoController_run 150 (fire 0 world0)))
   \<and> state (autoController (AutoController_run 350 (AutoController_run 150 (fire 0 world0)))) = 0
   \<and> \<not> loaded (autoController (AutoController_run 350 (AutoController_run 150 (fire 0 world0))))
   \<and> goal (shooter (AutoController_run 350 (AutoController_run 150 (fire 0 world0)))) = 1500
   \<and> speed (feeder (AutoController_run 350 (AutoController_run 150 (fire 0 world0)))) = 0"
proof -
  let ?v = "fire 0 world0"
  let ?v' = "AutoController_run 150 ?v"
  have t: "(100::ulong) - 0 < QUICKFIRE_TIME" "(200::ulong) - 0 < QUICKFIRE_TIME"
    by (simp_all add: QUICKFIRE_TIME_def)
  then have ts: "\<forall>u\<in>set [100, 200::ulong]. u - 0 < QUICKFIRE_TIME" by simp
  have s: "state (autoController ?v) = 2" by code_simp
  have e: "150 - start_fire_time (autoController ?v) < QUICKFIRE_TIME" by code_simp
  have wired: "\<not> reversed (feeder ?v)" "inA_pin (feeder ?v) \<noteq> inB_pin (feeder ?v)" by code_simp+
  have rev: "reversed (shooter ?v)" by code_simp
  have pins: "inA_pin (feeder ?v) = 8" "inB_pin (feeder ?v) = 9" "pwm_pin (feeder ?v) = 5" by code_simp+
  have s': "state (autoController ?v') = 2" by code_simp
  have e': "QUICKFIRE_TIME \<le> 350 - start_fire_time (autoController ?v')" by code_simp
  note first = C6_fire [of 0 world0 "[100, 200]" ?v 150]
  note second = C6_fire [of 0 world0 "[100, 200]" ?v' 350]
  from first ts
  have k: "autoController (do_calls ?v (map Tick [100, 200])) = autoController ?v"
    by blast
  from first s e wired
  have on: "goal (shooter ?v') = (if reversed (shooter ?v) then 1000 else 2000)
    \<and> speed (feeder ?v') = (if reversed (feeder ?v) then - 100 else 100)
    \<and> digital (hw ?v') (inA_pin (feeder ?v)) = LOW
    \<and> digital (hw ?v') (inB_pin (feeder ?v)) = HIGH
    \<and> analog (hw ?v') (pwm_pin (feeder ?v)) = 255"
    by blast
  then have on': "goal (shooter ?v') = 1000 \<and> speed (feeder ?v') = 100
    \<and> digital (hw ?v') 8 = LOW \<and> digital (hw ?v') 9 = HIGH \<and> analog (hw ?v') 5 = 255"
    using wired(1) rev pins by simp
  from second s' e'
  have off: "state (autoController (AutoController_run 350 ?v')) = 0
    \<and> \<not> loaded (autoController (AutoController_run 350 ?v'))
    \<and> goal (shooter (AutoController_run 350 ?v')) = 1500
    \<and> speed (feeder (AutoController_run 350 ?v')) = 0"
    by blast
  from t k s e on' s' e' off show ?thesis by blast
qed

text \<open>
  Claim C7: \<open>load()\<close>, in any state of the world (so also while already loading, which
  restarts the timer), sets \<open>state = 1\<close> (loading) and \<open>start_load_time\<close> to the clock
  value and clears \<open>loaded\<close>, changing nothing else. Ticks with elapsed time below
  \<open>RETRACT_TIME + LOAD_TIME\<close> leave the sequencer's members as they are. A tick in
  state 1 calls \<open>feeder.reverse()\<close> while the elapsed time is below \<open>RETRACT_TIME\<close>
  (speed -100; line A high, line B low, PWM 255 on a feeder that is not reversed), calls
  \<open>feeder.on()\<close> from \<open>RETRACT_TIME\<close> up to but excluding \<open>RETRACT_TIME + LOAD_TIME\<close>
  (speed 100; line A low, line B high, PWM 255), and from \<open>RETRACT_TIME + LOAD_TIME\<close>
  on turns the feeder off, calls \<open>shooter.on()\<close>, sets \<open>loaded\<close>, clears the timer and
  sets \<open>state = 0\<close>.
\<close>

theorem C7_load:
  "state (autoController (load t0 w)) = 1
   \<and> start_load_time (autoController (load t0 w)) = t0
   \<and> \<not> loaded (autoController (load t0 w))
   \<and> shooter (load t0 w) = shooter w \<and> feeder (load t0 w) = feeder w \<and> hw (load t0 w) = hw w
   \<and> ((\<forall>u\<in>set ts. u - t0 < RETRACT_TIME + LOAD_TIME) \<longrightarrow>
         autoController (do_calls (load t0 w) (map Tick ts)) = autoController (load t0 w))
   \<and> (state (autoController v) = 1 \<and> now - start_load_time (autoController v) < RETRACT_TIME \<longrightarrow>
         AutoController_run now v = feeder_reverse v
         \<and> autoController (AutoController_run now v) = autoController v
         \<and> shooter (AutoController_run now v) = shooter v
         \<and> speed (feeder (AutoController_run now v)) = (if reversed (feeder v) then 100 else - 100)
         \<and> (\<not> reversed (feeder v) \<and> inA_pin (feeder v) \<noteq> inB_pin (feeder v) \<longrightarrow>
               digital (hw (AutoController_run now v)) (inA_pin (feeder v)) = HIGH
               \<and> digital (hw (AutoController_run now v)) (inB_pin (feeder v)) = LOW
               \<and> analog (hw (AutoController_run now v)) (pwm_pin (feeder v)) = 255))
   \<and> (state (autoController v) = 1 \<and> RETRACT_TIME \<le> now - start_load_time (autoController v)
        \<and> now - start_load_time (autoController v) < RETRACT_TIME + LOAD_TIME \<longrightarrow>
         AutoController_run now v = feeder_on v
         \<and> autoController (AutoController_run now v) = autoController v
         \<and> shooter (AutoController_run now v) = shooter v
         \<and> speed (feeder (AutoController_run now v)) = (if reversed (feeder v) then - 100 else 100)
         \<and> (\<not> reversed (feeder v) \<and> inA_pin (feeder v) \<noteq> inB_pin (feeder v) \<longrightarrow>
               digital (hw (AutoController_run now v)) (inA_pin (feeder v)) = LOW
               \<and> digital (hw (AutoController_run now v)) (inB_pin (feeder v)) = HIGH
               \<and> analog (hw (AutoController_run now v)) (pwm_pin (feeder v)) = 255))
   \<and> (state (autoController v) = 1
        \<and> RETRACT_TIME + LOAD_TIME \<le> now - start_load_time (autoController v) \<longrightarrow>
         state (autoController (AutoController_run now v)) = 0
         \<and> loaded (autoController (AutoController_run now v))
         \<and> start_load_time (autoController (AutoController_run now v)) = 0
         \<and> shooter (AutoController_run now v) = Victor_on (shooter v)
         \<and> goal (shooter (AutoController_run now v)) = (if reversed (shooter v) then 1000 else 2000)
         \<and> speed (feeder (AutoController_run now v)) = 0
         \<and> digital (hw (AutoController_run now v)) (inA_pin (feeder v)) = LOW
         \<and> digital (hw (AutoController_run now v)) (inB_pin (feeder v)) = LOW
         \<and> analog (hw (AutoController_run now v)) (pwm_pin (feeder v)) = 0)"
proof -
  have start: "state (autoController (load t0 w)) = 1"
    "start_load_time (autoController (load t0 w)) = t0"
    "\<not> loaded (autoController (load t0 w))"
    "shooter (load t0 w) = shooter w" "feeder (load t0 w) = feeder w" "hw (load t0 w) = hw w"
    by (simp_all add: load_def)
  have keep: "autoController (do_calls (load t0 w) (map Tick ts)) = autoController (load t0 w)"
    if "\<forall>u\<in>set ts. u - t0 < RETRACT_TIME + LOAD_TIME"
    using that start by (intro ticks_keep_loading) simp_all
  have retract:
    "AutoController_run now v = feeder_reverse v
     \<and> autoController (AutoController_run now v) = autoController v
     \<and> shooter (AutoController_run now v) = shooter v
     \<and> speed (feeder (AutoController_run now v)) = (if reversed (feeder v) then 100 else - 100)
     \<and> (\<not> reversed (feeder v) \<and> inA_pin (feeder v) \<noteq> inB_pin (feeder v) \<longrightarrow>
           digital (hw (AutoController_run now v)) (inA_pin (feeder v)) = HIGH
           \<and> digital (hw (AutoController_run now v)) (inB_pin (feeder v)) = LOW
           \<and> analog (hw (AutoController_run now v)) (pwm_pin (feeder v)) = 255)"
    if "state (autoController v) = 1" "now - start_load_time (autoController v) < RETRACT_TIME"
    using that feeder_reverse_outputs [of v]
    by (simp add: AutoController_run_cases runLoad_retract)
  have extend:
    "AutoController_run now v = feeder_on v
     \<and> autoController (AutoController_run now v) = autoController v
     \<and> shooter (AutoController_run now v) = shooter v
     \<and> speed (feeder (AutoController_run now v)) = (if reversed (feeder v) then - 100 else 100)
     \<and> (\<not> reversed (feeder v) \<and> inA_pin (feeder v) \<noteq> inB_pin (feeder v) \<longrightarrow>
           digital (hw (AutoController_run now v)) (inA_pin (feeder v)) = LOW
           \<and> digital (hw (AutoController_run now v)) (inB_pin (feeder v)) = HIGH
           \<and> analog (hw (AutoController_run now v)) (pwm_pin (feeder v)) = 255)"
    if "state (autoController v) = 1" "RETRACT_TIME \<le> now - start_load_time (autoController v)"
       "now - start_load_time (autoController v) < RETRACT_TIME + LOAD_TIME"
    using that feeder_on_outputs [of v]
    by (simp add: AutoController_run_cases runLoad_extend not_less)
  have fin:
    "state (autoController (AutoController_run now v)) = 0
     \<and> loaded (autoController (AutoController_run now v))
     \<and> start_load_time (autoController (AutoController_run now v)) = 0
     \<and> shooter (AutoController_run now v) = Victor_on (shooter v)
     \<and> goal (shooter (AutoController_run now v)) = (if reversed (shooter v) then 1000 else 2000)
     \<and> speed (feeder (AutoController_run now v)) = 0
     \<and> digital (hw (AutoController_run now v)) (inA_pin (feeder v)) = LOW
     \<and> digital (hw (AutoController_run now v)) (inB_pin (feeder v)) = LOW
     \<and> analog (hw (AutoController_run now v)) (pwm_pin (feeder v)) = 0"
    if "state (autoController v) = 1"
       "RETRACT_TIME + LOAD_TIME \<le> now - start_load_time (autoController v)"
    using that
    by (simp add: AutoController_run_cases runLoad_done not_less Victor_on_off_goal
        feeder_off_outputs)
  show ?thesis
    using start keep retract extend fin by blast
qed

theorem C7_load_witness:
  "(500::ulong) - 0 < RETRACT_TIME + LOAD_TIME \<and> (1200::ulong) - 0 < RETRACT_TIME + LOAD_TIME
   \<and> autoController (do_calls (load 0 world0) (map Tick [500, 1200])) = autoController (load 0 world0)
   \<and> state (autoController (load 0 world0)) = 1
   \<and> 500 - start_load_time (autoController (load 0 world0)) < RETRACT_TIME
   \<and> speed (feeder (AutoController_run 500 (load 0 world0))) = - 100
   \<and> digital (hw (AutoController_run 500 (load 0 world0))) 8 = HIGH
   \<and> digital (hw (AutoController_run 500 (load 0 world0))) 9 = LOW
   \<and> analog (hw (AutoController_run 500 (load 0 world0))) 5 = 255
   \<and> RETRACT_TIME \<le> 1200 - start_load_time (autoController (load 0 world0))
   \<and> 1200 - start_load_time (autoController (load 0 world0)) < RETRACT_TIME + LOAD_TIME
   \<and> speed (feeder (AutoController_run 1200 (load 0 world0))) = 100
   \<and> digital (hw (AutoController_run 1200 (load 0 world0))) 8 = LOW
   \<and> digital (hw (AutoController_run 1200 (load 0 world0))) 9 = HIGH
   \<and> RETRACT_TIME + LOAD_TIME \<le> 1700 - start_load_time (autoController (load 0 world0))
   \<and> state (autoController (AutoController_run 1700 (load 0 world0))) = 0
   \<and> loaded (autoController (AutoController_run 1700 (load 0 world0)))
   \<and> goal (shooter (AutoController_run 1700 (load 0 world0))) = 1000
   \<and> speed (feeder (AutoController_run 1700 (load 0 world0))) = 0"
proof -
  let ?v = "load 0 world0"
  have t: "(500::ulong) - 0 < RETRACT_TIME + LOAD_TIME" "(1200::ulong) - 0 < RETRACT_TIME + LOAD_TIME"
    by (simp_all add: RETRACT_TIME_def LOAD_TIME_def)
  then have ts: "\<forall>u\<in>set [500, 1200::ulong]. u - 0 < RETRACT_TIME + LOAD_TIME" by simp
  have s: "state (autoController ?v) = 1" by code_simp
  have e1: "500 - start_load_time (autoController ?v) < RETRACT_TIME" by code_simp
  have e2: "RETRACT_TIME \<le> 1200 - start_load_time (autoController ?v)"
    "1200 - start_load_time (autoController ?v) < RETRACT_TIME + LOAD_TIME" by code_simp+
  have e3: "RETRACT_TIME + LOAD_TIME \<le> 1700 - start_load_time (autoController ?v)" by code_simp
  have wired: "\<not> reversed (feeder ?v)" "inA_pin (feeder ?v) \<noteq> inB_pin (feeder ?v)" by code_simp+
  have rev: "reversed (shooter ?v)" by code_simp
  have pins: "inA_pin (feeder ?v) = 8" "inB_pin (feeder ?v) = 9" "pwm_pin (feeder ?v) = 5" by code_simp+
  note at500 = C7_load [of 0 world0 "[500, 1200]" ?v 500]
  note at1200 = C7_load [of 0 world0 "[500, 1200]" ?v 1200]
  note at1700 = C7_load [of 0 world0 "[500, 1200]" ?v 1700]
  from at500 ts
  have k: "autoController (do_calls ?v (map Tick [500, 1200])) = autoController ?v"
    by blast
  from at500 s e1 wired
  have "speed (feeder (AutoController_run 500 ?v)) = (if reversed (feeder ?v) then 100 else - 100)
    \<and> digital (hw (AutoController_run 500 ?v)) (inA_pin (feeder ?v)) = HIGH
    \<and> digital (hw (AutoController_run 500 ?v)) (inB_pin (feeder ?v)) = LOW
    \<and> analog (hw (AutoController_run 500 ?v)) (pwm_pin (feeder ?v)) = 255"
    by blast
  then have r1: "speed (feeder (AutoController_run 500 ?v)) = - 100
    \<and> digital (hw (AutoController_run 500 ?v)) 8 = HIGH
    \<and> digital (hw (AutoController_run 500 ?v)) 9 = LOW
    \<and> analog (hw (AutoController_run 500 ?v)) 5 = 255"
    using wired(1) pins by simp
  from at1200 s e2 wired
  have "speed (feeder (AutoController_run 1200 ?v)) = (if reversed (feeder ?v) then - 100 else 100)
    \<and> digital (hw (AutoController_run 1200 ?v)) (inA_pin (feeder ?v)) = LOW
    \<and> digital (hw (AutoController_run 1200 ?v)) (inB_pin (feeder ?v)) = HIGH"
    by blast
  then have r2: "speed (feeder (AutoController_run 1200 ?v)) = 100
    \<and> digital (hw (AutoController_run 1200 ?v)) 8 = LOW
    \<and> digital (hw (AutoController_run 1200 ?v)) 9 = HIGH"
    using wired(1) pins by simp
  from at1700 s e3
  have "state (autoController (AutoController_run 1700 ?v)) = 0
    \<and> loaded (autoController (AutoController_run 1700 ?v))
    \<and> goal (shooter (AutoController_run 1700 ?v)) = (if reversed (shooter ?v) then 1000 else 2000)
    \<and> speed (feeder (AutoController_run 1700 ?v)) = 0"
    by blast
  then have r3: "state (autoController (AutoController_run 1700 ?v)) = 0
    \<and> loaded (autoController (AutoController_run 1700 ?v))
    \<and> goal (shooter (AutoController_run 1700 ?v)) = 1000
    \<and> speed (feeder (AutoController_run 1700 ?v)) = 0"
    using rev by simp
  from t k s e1 r1 e2 r2 e3 r3 show ?thesis by blast
qed

lemma loaded_step:
  assumes "loaded (autoController (do_call w c))"
  shows "(loaded (autoController w) \<and> c \<noteq> Cancel \<and> (\<forall>u. c \<noteq> Load u))
         \<or> (\<exists>t. c = Tick t \<and> state (autoController w) = 1
                \<and> RETRACT_TIME + LOAD_TIME \<le> t - start_load_time (autoController w))"
  using assms
  by (cases c) (auto simp add: autoController_load autoController_fire autoController_cancel
      AutoController_new_def autoController_tick not_less split: if_splits)

lemma loaded_not_loading_step:
  assumes "loaded (autoController w) \<longrightarrow> state (autoController w) = 0 \<or> state (autoController w) = 2"
  shows "loaded (autoController (do_call w c)) \<longrightarrow>
           state (autoController (do_call w c)) = 0 \<or> state (autoController (do_call w c)) = 2"
  using assms
  by (cases c) (auto simp add: autoController_load autoController_fire autoController_cancel
      AutoController_new_def autoController_tick split: if_splits)

lemma loaded_not_loading:
  assumes "\<not> loaded (autoController w)"
  shows "loaded (autoController (do_calls w cs)) \<longrightarrow>
           state (autoController (do_calls w cs)) = 0 \<or> state (autoController (do_calls w cs)) = 2"
proof (induction cs rule: rev_induct)
  case Nil
  then show ?case using assms by simp
next
  case (snoc c cs)
  from snoc.IH show ?case
    unfolding do_calls_snoc by (rule loaded_not_loading_step)
qed

lemma loaded_history:
  assumes "\<not> loaded (autoController w)"
  shows "loaded (autoController (do_calls w cs)) \<Longrightarrow>
           \<exists>pre t post. cs = pre @ Tick t # post
              \<and> state (autoController (do_calls w pre)) = 1
              \<and> RETRACT_TIME + LOAD_TIME \<le> t - start_load_time (autoController (do_calls w pre))
              \<and> Cancel \<notin> set post \<and> (\<forall>u. Load u \<notin> set post)"
proof (induction cs rule: rev_induct)
  case Nil
  then show ?case using assms by simp
next
  case (snoc c cs)
  from snoc.prems have "loaded (autoController (do_call (do_calls w cs) c))"
    by (simp only: do_calls_snoc)
  then consider
    (kept) "loaded (autoController (do_calls w cs))" "c \<noteq> Cancel" "\<forall>u. c \<noteq> Load u"
    | (completed) t where "c = Tick t" "state (autoController (do_calls w cs)) = 1"
        "RETRACT_TIME + LOAD_TIME \<le> t - start_load_time (autoController (do_calls w cs))"
    using loaded_step by blast
  then show ?case
  proof cases
    case kept
    from snoc.IH [OF kept(1)] obtain pre t post where
      h: "cs = pre @ Tick t # post" "state (autoController (do_calls w pre)) = 1"
         "RETRACT_TIME + LOAD_TIME \<le> t - start_load_time (autoController (do_calls w pre))"
         "Cancel \<notin> set post" "\<forall>u. Load u \<notin> set post"
      by blast
    have "cs @ [c] = pre @ Tick t # (post @ [c])" using h(1) by simp
    moreover have "Cancel \<notin> set (post @ [c])" "\<forall>u. Load u \<notin> set (post @ [c])"
      using h(4,5) kept(2,3) by auto
    ultimately show ?thesis using h(2,3) by blast
  next
    case completed
    have "cs @ [c] = cs @ Tick t # []" using completed(1) by simp
    moreover have "Cancel \<notin> set []" "\<forall>u. Load u \<notin> set []" by simp_all
    ultimately show ?thesis using completed(2,3) by blast
  qed
qed

text \<open>
  Claim C3 says that \<open>loaded\<close> is true only while the sequencer is idle. As stated it
  fails: \<open>fire()\<close> leaves \<open>loaded\<close> as it is, and only the end of the firing phase
  clears it. After \<open>load()\<close> at 0, a tick at 1650 (which completes loading) and
  \<open>fire()\<close> at 1700, the sequencer is firing and \<open>loaded\<close> is true.
\<close>

theorem C3_loaded_while_firing:
  "loaded (autoController (do_calls world0 [Load 0, Tick 1650, Fire 1700]))
   \<and> state (autoController (do_calls world0 [Load 0, Tick 1650, Fire 1700])) = 2
   \<and> state (autoController (do_calls world0 [Load 0, Tick 1650, Fire 1700])) \<noteq> 0"
  by code_simp

text \<open>
  Claim C3 as amended: starting from a sequencer whose \<open>loaded\<close> is false (as the
  constructor leaves it), after any sequence of \<open>load()\<close>, \<open>fire()\<close>, \<open>cancel()\<close> and
  tick calls, \<open>loaded\<close> is true only when the state is 0 (idle) or 2 (firing), never
  while loading, and only if some earlier tick completed a loading phase (state 1,
  elapsed time at least \<open>RETRACT_TIME + LOAD_TIME\<close>) with no \<open>cancel()\<close> and no
  \<open>load()\<close> after it.
\<close>

theorem C3_loaded_invariant:
  assumes "\<not> loaded (autoController w)" and "loaded (autoController (do_calls w cs))"
  shows "(state (autoController (do_calls w cs)) = 0 \<or> state (autoController (do_calls w cs)) = 2)
    \<and> (\<exists>pre t post. cs = pre @ Tick t # post
          \<and> state (autoController (do_calls w pre)) = 1
          \<and> RETRACT_TIME + LOAD_TIME \<le> t - start_load_time (autoController (do_calls w pre))
          \<and> Cancel \<notin> set post \<and> (\<forall>u. Load u \<notin> set post))"
  using loaded_not_loading [OF assms(1), of cs] loaded_history [OF assms] assms(2) by blast

theorem C3_loaded_invariant_witness:
  "\<not> loaded (autoController world0)
   \<and> loaded (autoController (do_calls world0 [Load 0, Tick 500, Tick 1700, Fire 1800, Tick 1900]))
   \<and> (state (autoController (do_calls world0 [Load 0, Tick 500, Tick 1700, Fire 1800, Tick 1900])) = 0
       \<or> state (autoController (do_calls world0 [Load 0, Tick 500, Tick 1700, Fire 1800, Tick 1900])) = 2)
   \<and> (\<exists>pre t post. [Load 0, Tick 500, Tick 1700, Fire 1800, Tick 1900] = pre @ Tick t # post
          \<and> state (autoController (do_calls world0 pre)) = 1
          \<and> RETRACT_TIME + LOAD_TIME \<le> t - start_load_time (autoController (do_calls world0 pre))
          \<and> Cancel \<notin> set post \<and> (\<forall>u. Load u \<notin> set post))"
proof -
  have a: "\<not> loaded (autoController world0)" by code_simp
  have b: "loaded (autoController (do_calls world0 [Load 0, Tick 500, Tick 1700, Fire 1800, Tick 1900]))"
    by code_simp
  from C3_loaded_invariant [OF a b] a b show ?thesis by blast
qed

end
